theory Spec2Isabelle
  imports Complex_Main "HOL-Library.Sublist"
begin

section \<open>JavaScript values and the library functions the service calls\<close>

text \<open>
  The service (\<^verbatim>\<open>src/countries/countries.service.ts\<close>) is TypeScript over untyped JSON.

  A \<open>char\<close> stands for a UTF-16 code unit below \<open>U+0100\<close>: the characters of ASCII and of
  Latin-1, each under its own code. Strings with other characters are outside the model.

  A \<open>jsval\<close> is a JSON scalar, or \<open>JUndefined\<close> for a property that is missing. \<open>JNum\<close>
  holds the number as the JSON text writes it; \<^verbatim>\<open>JSON.parse\<close> hands the program the
  nearest double.
\<close>

datatype jsval = JUndefined | JNull | JBool bool | JNum rat | JStr string

subsection \<open>\<^verbatim>\<open>String.prototype.trim\<close> and \<^verbatim>\<open>toLowerCase\<close>\<close>

text \<open>
  White space and line terminators: tab, line feed, vertical tab, form feed, carriage
  return, space and the no-break space \<open>U+00A0\<close>.
\<close>

definition js_space :: "char \<Rightarrow> bool" where
  "js_space c = (of_char c \<in> {9, 10, 11, 12, 13, 32, 160 :: nat})"

definition trim_start :: "string \<Rightarrow> string" where
  "trim_start s = dropWhile js_space s"

definition trim :: "string \<Rightarrow> string" where
  "trim s = rev (dropWhile js_space (rev (dropWhile js_space s)))"

text \<open>
  The capital letters below \<open>U+0100\<close> are \<open>A\<close> to \<open>Z\<close> and \<open>U+00C0\<close> to \<open>U+00DE\<close> but for
  the multiplication sign \<open>U+00D7\<close>; the small letter is 32 further on.
\<close>

definition lower_char :: "char \<Rightarrow> char" where
  "lower_char c =
     (let n = (of_char c :: nat)
      in if (65 \<le> n \<and> n \<le> 90) \<or> (192 \<le> n \<and> n \<le> 222 \<and> n \<noteq> 215) then char_of (n + 32)
         else c)"

definition toLowerCase :: "string \<Rightarrow> string" where
  "toLowerCase s = map lower_char s"

subsection \<open>Numbers\<close>

text \<open>
  A JavaScript number is a double: a finite one, given by its exact value, or one of the
  three special values. Negative zero is not kept apart from zero: where the service
  could meet it (a rate, a parsed population) it is falsy like zero.
\<close>

datatype number = Num rat | Infinity | NegInfinity | NaN

definition pow2 :: "int \<Rightarrow> rat" where
  "pow2 e = (if 0 \<le> e then of_int (2 ^ nat e) else 1 / of_int (2 ^ nat (- e)))"

definition pow10 :: "int \<Rightarrow> rat" where
  "pow10 e = (if 0 \<le> e then of_int (10 ^ nat e) else 1 / of_int (10 ^ nat (- e)))"

text \<open>
  Rounding to the nearest double, ties to even. The magnitude \<open>n / d\<close> is brought to
  \<open>(n' / d') * 2\<^sup>e\<close> with \<open>2\<^sup>5\<^sup>2 \<le> n' / d' < 2\<^sup>5\<^sup>3\<close>, or with \<open>e = -1074\<close> when it is too small for
  that (the subnormal numbers); the quotient \<open>n' / d'\<close> is rounded to an integer; what
  reaches \<open>2\<^sup>1\<^sup>0\<^sup>2\<^sup>4\<close> is infinite. (\<open>2\<^sup>5\<^sup>2 = 4503599627370496\<close>.)
\<close>

function scale_down :: "int \<Rightarrow> int \<Rightarrow> int \<Rightarrow> int \<times> int \<times> int" where
  "scale_down n d e =
     (if 0 < d \<and> 9007199254740992 * d \<le> n then scale_down n (2 * d) (e + 1) else (n, d, e))"
  by pat_completeness auto
termination
  by (relation "measure (\<lambda>(n, d, e). nat (n - d))") auto

function scale_up :: "int \<Rightarrow> int \<Rightarrow> int \<Rightarrow> int \<times> int \<times> int" where
  "scale_up n d e =
     (if n < 4503599627370496 * d \<and> - 1074 < e then scale_up (2 * n) d (e - 1) else (n, d, e))"
  by pat_completeness auto
termination
  by (relation "measure (\<lambda>(n, d, e). nat (e + 1074))") auto

definition round_even :: "int \<Rightarrow> int \<Rightarrow> int" where
  "round_even n d =
     (let q = n div d; r = n mod d
      in if 2 * r < d then q else if d < 2 * r then q + 1 else if even q then q else q + 1)"

definition nearest_double :: "rat \<Rightarrow> int \<times> int" where
  "nearest_double a =
     (case quotient_of a of (p, q) \<Rightarrow>
        case scale_down p q 0 of (n, d, e) \<Rightarrow>
          case scale_up n d e of (n', d', e') \<Rightarrow> (round_even n' d', e'))"

definition fl :: "rat \<Rightarrow> number" where
  "fl x =
     (if x = 0 then Num 0
      else case nearest_double \<bar>x\<bar> of (m, e) \<Rightarrow>
             if 971 < e \<or> (e = 971 \<and> m = 9007199254740992)
             then (if x < 0 then NegInfinity else Infinity)
             else Num ((if x < 0 then - 1 else 1) * (of_int m * pow2 e)))"

text \<open>The operators \<^verbatim>\<open>*\<close>, \<^verbatim>\<open>+\<close> and \<^verbatim>\<open>/\<close>, truthiness, and \<^verbatim>\<open>x > 0\<close>.\<close>

definition negative :: "number \<Rightarrow> bool" where
  "negative x = (case x of Num a \<Rightarrow> a < 0 | NegInfinity \<Rightarrow> True | _ \<Rightarrow> False)"

definition infinity :: "bool \<Rightarrow> number" where
  "infinity neg = (if neg then NegInfinity else Infinity)"

definition times :: "number \<Rightarrow> number \<Rightarrow> number" where
  "times x y =
     (case (x, y) of
        (NaN, _) \<Rightarrow> NaN
      | (_, NaN) \<Rightarrow> NaN
      | (Num a, Num b) \<Rightarrow> fl (a * b)
      | (Num a, _) \<Rightarrow> if a = 0 then NaN else infinity (negative x \<noteq> negative y)
      | (_, Num b) \<Rightarrow> if b = 0 then NaN else infinity (negative x \<noteq> negative y)
      | _ \<Rightarrow> infinity (negative x \<noteq> negative y))"

definition plus :: "number \<Rightarrow> number \<Rightarrow> number" where
  "plus x y =
     (case (x, y) of
        (NaN, _) \<Rightarrow> NaN
      | (_, NaN) \<Rightarrow> NaN
      | (Num a, Num b) \<Rightarrow> fl (a + b)
      | (Num a, _) \<Rightarrow> y
      | (_, Num b) \<Rightarrow> x
      | _ \<Rightarrow> if negative x = negative y then x else NaN)"

definition over :: "number \<Rightarrow> number \<Rightarrow> number" where
  "over x y =
     (case (x, y) of
        (NaN, _) \<Rightarrow> NaN
      | (_, NaN) \<Rightarrow> NaN
      | (Num a, Num b) \<Rightarrow>
          if b = 0 then (if a = 0 then NaN else infinity (a < 0)) else fl (a / b)
      | (Num a, _) \<Rightarrow> Num 0
      | (_, Num b) \<Rightarrow> infinity (negative x \<noteq> negative y)
      | _ \<Rightarrow> NaN)"

definition truthy :: "number \<Rightarrow> bool" where
  "truthy x = (x \<noteq> Num 0 \<and> x \<noteq> NaN)"

definition positive :: "number \<Rightarrow> bool" where
  "positive x = (case x of Num a \<Rightarrow> 0 < a | Infinity \<Rightarrow> True | _ \<Rightarrow> False)"

subsection \<open>\<^verbatim>\<open>parseFloat(x.toFixed(2))\<close>\<close>

text \<open>
  \<^verbatim>\<open>toFixed(2)\<close> prints the multiple of \<open>1/100\<close> nearest to the magnitude of the double,
  the larger one on a tie, with the sign in front; from \<open>10\<^sup>2\<^sup>1\<close> on, and for the special
  values, it prints the number itself. \<^verbatim>\<open>parseFloat\<close> reads the print back as the
  nearest double.
\<close>

definition toFixed2 :: "number \<Rightarrow> number" where
  "toFixed2 x =
     (case x of
        Num a \<Rightarrow>
          if 1000000000000000000000 \<le> \<bar>a\<bar> then x
          else let n = \<lfloor>\<bar>a\<bar> * 100 + 1 / 2\<rfloor>
               in fl ((if a < 0 then - 1 else 1) * (of_int n / 100))
      | _ \<Rightarrow> x)"

subsection \<open>\<^verbatim>\<open>parseInt\<close>\<close>

text \<open>
  \<^verbatim>\<open>parseInt(v)\<close> with no radix: the argument is converted to a string, leading white
  space is dropped, an optional sign is read, a prefix \<^verbatim>\<open>0x\<close>/\<^verbatim>\<open>0X\<close> selects radix 16,
  and the longest run of digits of the radix is the value, as the nearest double; with no
  digit the result is \<^verbatim>\<open>NaN\<close>.
\<close>

definition digit_of :: "char \<Rightarrow> nat option" where
  "digit_of c =
     (let n = (of_char c :: nat) in
      if 48 \<le> n \<and> n \<le> 57 then Some (n - 48)
      else if 97 \<le> n \<and> n \<le> 102 then Some (n - 87)
      else if 65 \<le> n \<and> n \<le> 70 then Some (n - 55)
      else None)"

definition is_digit :: "nat \<Rightarrow> char \<Rightarrow> bool" where
  "is_digit R c = (case digit_of c of Some d \<Rightarrow> d < R | None \<Rightarrow> False)"

definition digits_value :: "nat \<Rightarrow> string \<Rightarrow> nat" where
  "digits_value R z = foldl (\<lambda>a c. a * R + the (digit_of c)) 0 z"

definition parse_radix :: "nat \<Rightarrow> string \<Rightarrow> nat option" where
  "parse_radix R s =
     (let z = takeWhile (is_digit R) s in if z = [] then None else Some (digits_value R z))"

definition parse_unsigned :: "string \<Rightarrow> nat option" where
  "parse_unsigned s =
     (case s of
        c # d # rest \<Rightarrow>
          if c = CHR ''0'' \<and> (d = CHR ''x'' \<or> d = CHR ''X'') then parse_radix 16 rest
          else parse_radix 10 s
      | _ \<Rightarrow> parse_radix 10 s)"

definition parseInt_string :: "string \<Rightarrow> number" where
  "parseInt_string s =
     (case trim_start s of
        [] \<Rightarrow> NaN
      | c # rest \<Rightarrow>
          (case (if c = CHR ''-'' \<or> c = CHR ''+'' then parse_unsigned rest
                 else parse_unsigned (c # rest)) of
             None \<Rightarrow> NaN
           | Some n \<Rightarrow> fl ((if c = CHR ''-'' then - 1 else 1) * of_nat n)))"

text \<open>
  A number is first printed. The print has the fewest digits that read back as the same
  double: \<open>shortest_from\<close> tries 1, 2, ... digits, each time with the two decimals of that
  many digits next to the number, and \<open>first_digit\<close> is the leading digit of what it finds.
\<close>

function dec_down :: "int \<Rightarrow> int \<Rightarrow> int \<Rightarrow> int \<times> int \<times> int" where
  "dec_down n d E = (if 0 < d \<and> 10 * d \<le> n then dec_down n (10 * d) (E + 1) else (n, d, E))"
  by pat_completeness auto
termination
  by (relation "measure (\<lambda>(n, d, E). nat (n - d))") auto

function dec_up :: "int \<Rightarrow> int \<Rightarrow> int \<Rightarrow> int \<times> int \<times> int" where
  "dec_up n d E = (if 0 < n \<and> n < d then dec_up (10 * n) d (E - 1) else (n, d, E))"
  by pat_completeness auto
termination
  by (relation "measure (\<lambda>(n, d, E). nat (d - n))") auto

function shortest_from :: "rat \<Rightarrow> int \<Rightarrow> int \<Rightarrow> int \<Rightarrow> nat \<Rightarrow> int \<times> nat" where
  "shortest_from x n d E k =
     (let s = (n * 10 ^ (k - 1)) div d;
          lo = of_int s * pow10 (E - int k + 1);
          hi = of_int (s + 1) * pow10 (E - int k + 1);
          l = (fl lo = Num x); h = (fl hi = Num x)
      in if 17 \<le> k \<or> l \<or> h then
           (if l \<and> (\<not> h \<or> x - lo < hi - x \<or> (x - lo = hi - x \<and> even s)) then (s, k)
            else (s + 1, k))
         else shortest_from x n d E (Suc k))"
  by pat_completeness auto
termination
  by (relation "measure (\<lambda>(x, n, d, E, k). 17 - k)") auto

definition first_digit :: "rat \<Rightarrow> int" where
  "first_digit x =
     (case quotient_of x of (p, q) \<Rightarrow>
        case dec_down p q 0 of (n, d, E) \<Rightarrow>
          case dec_up n d E of (n', d', E') \<Rightarrow>
            case shortest_from x n' d' E' 1 of (s, k) \<Rightarrow>
              if s = 10 ^ k then 1 else s div 10 ^ (k - 1))"

text \<open>
  From \<open>10\<^sup>-\<^sup>6\<close> up to (not including) \<open>10\<^sup>2\<^sup>1\<close> the print is positional, so the digits before
  the point are read: the value truncated towards zero. Outside that range the print is in
  exponent notation (\<^verbatim>\<open>1e+21\<close>, \<^verbatim>\<open>1.5e-7\<close>) and \<^verbatim>\<open>parseInt\<close> stops after the first
  digit. \<^verbatim>\<open>Infinity\<close> and \<^verbatim>\<open>NaN\<close> print as words.
\<close>

definition parseInt_number :: "number \<Rightarrow> number" where
  "parseInt_number d =
     (case d of
        Num x \<Rightarrow>
          if x = 0 then Num 0
          else if 1 / 1000000 \<le> \<bar>x\<bar> \<and> \<bar>x\<bar> < 1000000000000000000000
          then Num ((if x < 0 then - 1 else 1) * of_int \<lfloor>\<bar>x\<bar>\<rfloor>)
          else Num ((if x < 0 then - 1 else 1) * of_int (first_digit \<bar>x\<bar>))
      | _ \<Rightarrow> NaN)"

definition parseInt :: "jsval \<Rightarrow> number" where
  "parseInt v =
     (case v of
        JNum x \<Rightarrow> parseInt_number (fl x)
      | JStr s \<Rightarrow> parseInt_string s
      | _ \<Rightarrow> NaN)"

text \<open>
  The strings \<^verbatim>\<open>parseInt\<close> can read a decimal number from: after leading white space
  and an optional sign, the next character is a decimal digit.
\<close>

definition begins_with_digit :: "string \<Rightarrow> bool" where
  "begins_with_digit s =
     (case trim_start s of
        [] \<Rightarrow> False
      | c # rest \<Rightarrow>
          if c = CHR ''-'' \<or> c = CHR ''+'' then (case rest of [] \<Rightarrow> False | e # t \<Rightarrow> is_digit 10 e)
          else is_digit 10 c)"

section \<open>The records of the service\<close>

text \<open>
  A raw record of the Countries API carries \<^verbatim>\<open>name\<close>, \<^verbatim>\<open>capital\<close>, \<^verbatim>\<open>region\<close>,
  \<^verbatim>\<open>population\<close>, \<^verbatim>\<open>flag\<close> and \<^verbatim>\<open>currencies\<close>. A text field is \<open>None\<close> when it is
  missing or \<^verbatim>\<open>null\<close>; \<^verbatim>\<open>currencies\<close> is \<open>None\<close> when it is missing, \<^verbatim>\<open>null\<close> or
  not an array. The population is kept as the JSON scalar received, since the service
  itself converts it with \<^verbatim>\<open>parseInt\<close>.
\<close>

record currency =
  code :: "string option"

record raw_country =
  c_name :: "string option"
  c_capital :: "string option"
  c_region :: "string option"
  c_population :: jsval
  c_flag :: "string option"
  c_currencies :: "currency list option"

text \<open>
  What \<^verbatim>\<open>exchangeRates[currencyCode]\<close> can be: a number of the mapping, or one of the
  members every object inherits from \<^verbatim>\<open>Object.prototype\<close> (a function, or the prototype
  itself), kept by its name.
\<close>

datatype rate_value = Rate number | Builtin string

text \<open>
  \<^verbatim>\<open>countryData\<close>, the object built at lines 144-153, and the entity \<^verbatim>\<open>Country\<close>
  (\<^verbatim>\<open>entities/country.entity.ts\<close>): the generated \<^verbatim>\<open>id\<close> with the columns. The
  column \<^verbatim>\<open>last_refreshed_at\<close>, which the database stamps with the wall clock on every
  write, is left out. A row keeps each value as the service hands it to the repository:
  the population column is \<^verbatim>\<open>int\<close>, which holds the integers below \<open>2\<^sup>3\<^sup>1\<close> as they are;
  the rounding of the two \<^verbatim>\<open>decimal\<close> columns, and what the database does with a value
  that a column does not hold, are left out.
\<close>

record country_data =
  name :: string
  capital :: "string option"
  region :: string
  population :: number
  currency_code :: "string option"
  exchange_rate :: "rate_value option"
  estimated_gbp :: number
  flag_url :: "string option"

record Country =
  row_id :: nat
  cols :: country_data

text \<open>
  The rate mapping: the own properties of the object \<^verbatim>\<open>data.rates\<close>, each number as the
  JSON text writes it.
\<close>

type_synonym rates = "string \<rightharpoonup> rat"

section \<open>The record transformer (lines 113-153 of \<^verbatim>\<open>refreshCountriesandSave\<close>)\<close>

text \<open>
  \<^verbatim>\<open>x || d\<close> on an optional string: the empty string is falsy as well as \<^verbatim>\<open>null\<close>
  and \<^verbatim>\<open>undefined\<close>.
\<close>

definition or_default :: "string option \<Rightarrow> string \<Rightarrow> string" where
  "or_default x d = (case x of Some s \<Rightarrow> if s = [] then d else s | None \<Rightarrow> d)"

definition or_null :: "string option \<Rightarrow> string option" where
  "or_null x = (case x of Some s \<Rightarrow> if s = [] then None else Some s | None \<Rightarrow> None)"

text \<open>
  \<^verbatim>\<open>
  const countryName = c.name || 'Unknown';
  \<close>
\<close>

definition countryName :: "raw_country \<Rightarrow> string" where
  "countryName c = or_default (c_name c) ''Unknown''"

text \<open>
  \<^verbatim>\<open>
  const hasCurrency = c.currencies && Array.isArray(c.currencies) && c.currencies.length > 0;
  \<close>
\<close>

definition hasCurrency :: "raw_country \<Rightarrow> bool" where
  "hasCurrency c = (case c_currencies c of Some (x # xs) \<Rightarrow> True | _ \<Rightarrow> False)"

text \<open>
  \<^verbatim>\<open>
  let currencyCode: string | null = null;
  if (hasCurrency) { currencyCode = c.currencies[0].code; ... }
  \<close>
\<close>

definition currencyCode :: "raw_country \<Rightarrow> string option" where
  "currencyCode c = (case c_currencies c of Some (x # xs) \<Rightarrow> code x | _ \<Rightarrow> None)"

text \<open>
  \<^verbatim>\<open>exchangeRates[currencyCode]\<close>: the own property of that name, read as a double, or
  else the member of \<^verbatim>\<open>Object.prototype\<close> of that name, or else \<^verbatim>\<open>undefined\<close>.
\<close>

definition object_prototype :: "string list" where
  "object_prototype =
     [''constructor'', ''__defineGetter__'', ''__defineSetter__'', ''hasOwnProperty'',
      ''__lookupGetter__'', ''__lookupSetter__'', ''isPrototypeOf'', ''propertyIsEnumerable'',
      ''toString'', ''valueOf'', ''__proto__'', ''toLocaleString'']"

definition property :: "rates \<Rightarrow> string \<Rightarrow> rate_value option" where
  "property exchangeRates k =
     (case exchangeRates k of
        Some r \<Rightarrow> Some (Rate (fl r))
      | None \<Rightarrow> if k \<in> set object_prototype then Some (Builtin k) else None)"

definition truthy_value :: "rate_value \<Rightarrow> bool" where
  "truthy_value v = (case v of Rate r \<Rightarrow> truthy r | Builtin k \<Rightarrow> True)"

text \<open>
  \<^verbatim>\<open>
  let exchangeRate: number | null = null;
  if (hasCurrency) {
    // Get exchange rate if currency code is found in exchange rates API
    if (currencyCode && exchangeRates[currencyCode]) {
      exchangeRate = exchangeRates[currencyCode];
    }
    // If currency_code is not found in exchange rates API, set to null
  }
  \<close>
  Both tests are truthiness tests: an empty code and a rate of zero fail them.
\<close>

definition exchangeRate :: "raw_country \<Rightarrow> rates \<Rightarrow> rate_value option" where
  "exchangeRate c exchangeRates =
     (if hasCurrency c then
        (case currencyCode c of
           Some cc \<Rightarrow>
             if cc \<noteq> [] then
               (case property exchangeRates cc of
                  Some v \<Rightarrow> if truthy_value v then Some v else None
                | None \<Rightarrow> None)
             else None
         | None \<Rightarrow> None)
      else None)"

text \<open>
  \<^verbatim>\<open>
  const population = parseInt(c.population) || 0;
  \<close>
\<close>

definition population_of :: "raw_country \<Rightarrow> number" where
  "population_of c = (let n = parseInt (c_population c) in if truthy n then n else Num 0)"

text \<open>
  \<^verbatim>\<open>
  if (population > 0 && exchangeRate && exchangeRate > 0) {
    const randomMultiplier = Math.random() * 1000 + 1000;
    estimatedGbp = (population * randomMultiplier) / exchangeRate;
  }
  \<close>
  \<open>draws_random\<close> is the test (a function is not greater than 0); \<open>u\<close> is the double
  \<^verbatim>\<open>Math.random()\<close> returns when it is called.
\<close>

definition draws_random :: "raw_country \<Rightarrow> rates \<Rightarrow> bool" where
  "draws_random c exchangeRates =
     (positive (population_of c) \<and>
      (case exchangeRate c exchangeRates of Some (Rate r) \<Rightarrow> positive r | _ \<Rightarrow> False))"

definition randomMultiplier :: "rat \<Rightarrow> number" where
  "randomMultiplier u = plus (times (Num u) (Num 1000)) (Num 1000)"

definition estimatedGbp :: "raw_country \<Rightarrow> rates \<Rightarrow> rat \<Rightarrow> number" where
  "estimatedGbp c exchangeRates u =
     (if draws_random c exchangeRates then
        (case exchangeRate c exchangeRates of
           Some (Rate r) \<Rightarrow> over (times (population_of c) (randomMultiplier u)) r
         | _ \<Rightarrow> Num 0)
      else Num 0)"

definition countryData :: "raw_country \<Rightarrow> rates \<Rightarrow> rat \<Rightarrow> country_data" where
  "countryData c exchangeRates u =
     \<lparr> name = countryName c,
       capital = or_null (c_capital c),
       region = or_default (c_region c) ''Unknown'',
       population = population_of c,
       currency_code = currencyCode c,
       exchange_rate = exchangeRate c exchangeRates,
       estimated_gbp = toFixed2 (estimatedGbp c exchangeRates u),
       flag_url = or_null (c_flag c) \<rparr>"

section \<open>The world the service runs in\<close>

text \<open>
  The state the service reads and writes: the table \<^verbatim>\<open>countries\<close> (its rows in insertion
  order, and the next value of the auto-increment key), the cached summary image, the
  number of \<^verbatim>\<open>Math.random()\<close> calls made so far, and the trace of the effects
  attempted so far, in order.
\<close>

datatype api = CountriesAPI | ExchangeRateAPI

datatype event =
    HttpGet api
  | FindOne string
  | Update nat
  | Save string
  | Count
  | FindTop
  | GetMany string
  | Remove "nat list"
  | WriteImage

text \<open>
  The errors thrown: an \<^verbatim>\<open>Error\<close> named \<^verbatim>\<open>ExternalAPIError\<close> (status 503) with its
  \<^verbatim>\<open>details\<close>, one named \<^verbatim>\<open>ValidationError\<close> (400), one named \<^verbatim>\<open>NotFoundError\<close>
  (404), and a plain \<^verbatim>\<open>Error\<close> with its message.
\<close>

datatype error = ExternalAPIError string | ValidationError | NotFoundError | Error string

definition message :: "error \<Rightarrow> string" where
  "message e =
     (case e of
        ExternalAPIError d \<Rightarrow> ''External data source unavailable''
      | ValidationError \<Rightarrow> ''Validation failed''
      | NotFoundError \<Rightarrow> ''Country not found''
      | Error m \<Rightarrow> m)"

text \<open>
  What the summary image shows: the row count and the top rows. The SVG text and the time
  printed in its footer are left out.
\<close>

record summary =
  totalCountries :: nat
  topCountries :: "Country list"

record world =
  rows :: "Country list"
  next_id :: nat
  cache :: "summary option"
  draws :: nat
  trace :: "event list"

text \<open>
  What the service cannot decide: the answer of each external API (\<open>Inl\<close> when
  \<^verbatim>\<open>axios.get\<close> throws: network error, timeout, status outside 2xx), the successive
  results of \<^verbatim>\<open>Math.random()\<close>, and whether the \<open>k\<close>-th effect of the trace, a
  repository call or the writing of the image, throws (\<open>Some\<close> of the message of what is thrown).
  What the database refuses by itself (a value too long or out of range for its column, a
  lost connection) is among these faults. The first API answers with an array of raw
  records; the second with an object whose \<^verbatim>\<open>rates\<close>, a table of numbers, may be missing.
\<close>

record env =
  countries_api :: "string + raw_country list"
  rates_api :: "string + rates option"
  math_random :: "nat \<Rightarrow> rat"
  fault :: "nat \<Rightarrow> string option"

definition io :: "env \<Rightarrow> event \<Rightarrow> world \<Rightarrow> string option \<times> world" where
  "io env ev w = (fault env (length (trace w)), w\<lparr>trace := trace w @ [ev]\<rparr>)"

subsection \<open>The repository\<close>

text \<open>
  Modelled from the spec: the comparison the database applies in
  \<^verbatim>\<open>findOne({ where: { name } })\<close>. The collation of the column is set where the table is
  created, outside the sources; the spec takes the lookup to be a case-sensitive exact
  match, which is equality of strings here. \<^verbatim>\<open>findOne\<close> returns the first row that matches.
\<close>

definition findOne :: "env \<Rightarrow> string \<Rightarrow> world \<Rightarrow> (error + Country option) \<times> world" where
  "findOne env n w =
     (case io env (FindOne n) w of
        (Some m, w') \<Rightarrow> (Inl (Error m), w')
      | (None, w') \<Rightarrow> (Inr (find (\<lambda>r. name (cols r) = n) (rows w')), w'))"

text \<open>\<^verbatim>\<open>update(id, data)\<close> sets the columns of the rows with that key.\<close>

definition update :: "env \<Rightarrow> nat \<Rightarrow> country_data \<Rightarrow> world \<Rightarrow> (error + unit) \<times> world" where
  "update env i d w =
     (case io env (Update i) w of
        (Some m, w') \<Rightarrow> (Inl (Error m), w')
      | (None, w') \<Rightarrow>
          (Inr (), w'\<lparr>rows := map (\<lambda>r. if row_id r = i then r\<lparr>cols := d\<rparr> else r) (rows w')\<rparr>))"

text \<open>\<^verbatim>\<open>save(data)\<close> of an object with no key inserts a row under the next key.\<close>

definition save :: "env \<Rightarrow> country_data \<Rightarrow> world \<Rightarrow> (error + unit) \<times> world" where
  "save env d w =
     (case io env (Save (name d)) w of
        (Some m, w') \<Rightarrow> (Inl (Error m), w')
      | (None, w') \<Rightarrow>
          (Inr (), w'\<lparr>rows := rows w' @ [\<lparr>row_id = next_id w', cols = d\<rparr>],
                      next_id := Suc (next_id w')\<rparr>))"

definition count :: "env \<Rightarrow> world \<Rightarrow> (error + nat) \<times> world" where
  "count env w =
     (case io env Count w of
        (Some m, w') \<Rightarrow> (Inl (Error m), w')
      | (None, w') \<Rightarrow> (Inr (length (rows w')), w'))"

text \<open>
  \<^verbatim>\<open>find({ order: { estimated_gbp: 'DESC' }, take: 5 })\<close>; rows of equal value are
  taken in table order. A decimal column holds finite values; \<open>column_value\<close> is 0 for the
  others, whose write the database refuses.
\<close>

definition column_value :: "number \<Rightarrow> rat" where
  "column_value x = (case x of Num a \<Rightarrow> a | _ \<Rightarrow> 0)"

definition find_top5 :: "env \<Rightarrow> world \<Rightarrow> (error + Country list) \<times> world" where
  "find_top5 env w =
     (case io env FindTop w of
        (Some m, w') \<Rightarrow> (Inl (Error m), w')
      | (None, w') \<Rightarrow>
          (Inr (take 5 (sort_key (\<lambda>r. - column_value (estimated_gbp (cols r))) (rows w'))), w'))"

text \<open>
  The SQL operator \<^verbatim>\<open>LIKE\<close>, with the string first and the pattern second: \<^verbatim>\<open>%\<close>
  matches any run of characters, \<^verbatim>\<open>_\<close> any one character, and a backslash makes the
  character after it literal.

  Modelled from the spec: the comparison of one character with another. The collation
  \<^verbatim>\<open>LIKE\<close> compares under is set where the table is created, outside the sources; the spec
  takes the match to be a substring match that ignores letter case and nothing else, which
  is equality of characters here, both sides being in small letters.
\<close>

fun like :: "string \<Rightarrow> string \<Rightarrow> bool" where
  "like s [] = (s = [])"
| "like s (p # ps) =
     (if p = CHR ''%'' then
        like s ps \<or> (case s of [] \<Rightarrow> False | c # s' \<Rightarrow> like s' (p # ps))
      else if p = CHR ''_'' then
        (case s of [] \<Rightarrow> False | c # s' \<Rightarrow> like s' ps)
      else if p = CHR 0x5C then
        (case ps of
           [] \<Rightarrow> s = [p]
         | q # qs \<Rightarrow> (case s of [] \<Rightarrow> False | c # s' \<Rightarrow> c = q \<and> like s' qs))
      else (case s of [] \<Rightarrow> False | c # s' \<Rightarrow> c = p \<and> like s' ps))"

text \<open>
  \<^verbatim>\<open>
  createQueryBuilder('country').where('LOWER(country.name) LIKE :name', { name: pat }).getMany()
  \<close>
  The function \<^verbatim>\<open>LOWER\<close> of the database is taken to turn the letters \<^verbatim>\<open>toLowerCase\<close>
  turns.
\<close>

definition getMany :: "env \<Rightarrow> string \<Rightarrow> world \<Rightarrow> (error + Country list) \<times> world" where
  "getMany env pat w =
     (case io env (GetMany pat) w of
        (Some m, w') \<Rightarrow> (Inl (Error m), w')
      | (None, w') \<Rightarrow> (Inr (filter (\<lambda>r. like (toLowerCase (name (cols r))) pat) (rows w')), w'))"

text \<open>\<^verbatim>\<open>remove(entities)\<close> deletes, in one transaction, the rows with the keys of the entities.\<close>

definition remove :: "env \<Rightarrow> Country list \<Rightarrow> world \<Rightarrow> (error + Country list) \<times> world" where
  "remove env entities w =
     (case io env (Remove (map row_id entities)) w of
        (Some m, w') \<Rightarrow> (Inl (Error m), w')
      | (None, w') \<Rightarrow>
          (Inr entities,
           w'\<lparr>rows := filter (\<lambda>r. row_id r \<notin> set (map row_id entities)) (rows w')\<rparr>))"

section \<open>The service\<close>

subsection \<open>\<^verbatim>\<open>generateSummaryImage\<close> (lines 321-358)\<close>

text \<open>
  The body of the \<^verbatim>\<open>try\<close>: count the rows, read the top five, render and write
  \<^verbatim>\<open>cache/summary.png\<close>. Any of the three may throw.
\<close>

definition write_image :: "env \<Rightarrow> summary \<Rightarrow> world \<Rightarrow> (error + unit) \<times> world" where
  "write_image env img w =
     (case io env WriteImage w of
        (Some m, w') \<Rightarrow> (Inl (Error m), w')
      | (None, w') \<Rightarrow> (Inr (), w'\<lparr>cache := Some img\<rparr>))"

definition generateSummaryImage_try :: "env \<Rightarrow> world \<Rightarrow> (error + unit) \<times> world" where
  "generateSummaryImage_try env w =
     (case count env w of
        (Inl e, w1) \<Rightarrow> (Inl e, w1)
      | (Inr n, w1) \<Rightarrow>
          (case find_top5 env w1 of
             (Inl e, w2) \<Rightarrow> (Inl e, w2)
           | (Inr tops, w2) \<Rightarrow>
               write_image env \<lparr>totalCountries = n, topCountries = tops\<rparr> w2))"

text \<open>
  \<^verbatim>\<open>
  } catch (error) {
    console.error('Error generating summary image:', error);
    // Don't throw error to prevent breaking the refresh process
  }
  \<close>
\<close>

definition generateSummaryImage :: "env \<Rightarrow> world \<Rightarrow> (error + unit) \<times> world" where
  "generateSummaryImage env w =
     (case generateSummaryImage_try env w of
        (Inl e, w') \<Rightarrow> (Inr (), w')
      | (Inr u, w') \<Rightarrow> (Inr u, w'))"

subsection \<open>\<^verbatim>\<open>refreshCountriesandSave\<close> (lines 52-193)\<close>

text \<open>
  One turn of the loop \<^verbatim>\<open>for (const c of countries)\<close>, lines 113-175: build
  \<^verbatim>\<open>countryData\<close>, drawing a random number when the estimate is computed, look the name
  up, then update the row found or insert a new one.
\<close>

definition process_country :: "env \<Rightarrow> rates \<Rightarrow> raw_country \<Rightarrow> world \<Rightarrow> (error + unit) \<times> world" where
  "process_country env exchangeRates c w =
     (let d = countryData c exchangeRates (math_random env (draws w));
          w1 = (if draws_random c exchangeRates then w\<lparr>draws := Suc (draws w)\<rparr> else w)
      in case findOne env (name d) w1 of
           (Inl e, w2) \<Rightarrow> (Inl e, w2)
         | (Inr existingCountry, w2) \<Rightarrow>
             (case existingCountry of
                Some r \<Rightarrow> update env (row_id r) d w2
              | None \<Rightarrow> save env d w2))"

fun process_countries :: "env \<Rightarrow> rates \<Rightarrow> raw_country list \<Rightarrow> world \<Rightarrow> (error + unit) \<times> world" where
  "process_countries env exchangeRates [] w = (Inr (), w)"
| "process_countries env exchangeRates (c # cs) w =
     (case process_country env exchangeRates c w of
        (Inl e, w') \<Rightarrow> (Inl e, w')
      | (Inr u, w') \<Rightarrow> process_countries env exchangeRates cs w')"

text \<open>
  The third \<^verbatim>\<open>try\<close>, lines 109-187: the loop, then the summary image; whatever is
  thrown inside is thrown again as
  \<^verbatim>\<open>new Error(`Failed to save countries to database: ${error.message}`)\<close>.
\<close>

definition save_failed :: "error \<Rightarrow> error" where
  "save_failed e = Error (''Failed to save countries to database: '' @ message e)"

definition process_and_summarise ::
    "env \<Rightarrow> rates \<Rightarrow> raw_country list \<Rightarrow> world \<Rightarrow> (error + unit) \<times> world" where
  "process_and_summarise env exchangeRates countries w =
     (case process_countries env exchangeRates countries w of
        (Inl e, w1) \<Rightarrow> (Inl (save_failed e), w1)
      | (Inr u, w1) \<Rightarrow>
          (case generateSummaryImage env w1 of
             (Inl e, w2) \<Rightarrow> (Inl (save_failed e), w2)
           | (Inr u', w2) \<Rightarrow> (Inr (), w2)))"

text \<open>
  The two fetches, lines 73-107, each in its own \<^verbatim>\<open>try\<close>, and the rest. The outer
  \<^verbatim>\<open>catch\<close> (lines 188-192) logs and throws the same error again.
\<close>

definition refreshCountriesandSave :: "env \<Rightarrow> world \<Rightarrow> (error + unit) \<times> world" where
  "refreshCountriesandSave env w =
     (let w1 = w\<lparr>trace := trace w @ [HttpGet CountriesAPI]\<rparr>
      in case countries_api env of
           Inl m \<Rightarrow> (Inl (ExternalAPIError ''Could not fetch data from Countries API''), w1)
         | Inr countries \<Rightarrow>
             (let w2 = w1\<lparr>trace := trace w1 @ [HttpGet ExchangeRateAPI]\<rparr>
              in case rates_api env of
                   Inl m \<Rightarrow>
                     (Inl (ExternalAPIError ''Could not fetch data from Exchange Rate API''), w2)
                 | Inr data_rates \<Rightarrow>
                     (let exchangeRates = (case data_rates of Some m \<Rightarrow> m | None \<Rightarrow> Map.empty)
                      in process_and_summarise env exchangeRates countries w2)))"

subsection \<open>\<^verbatim>\<open>findCountriesByName\<close> (lines 234-259) and \<^verbatim>\<open>deleteCountriesByName\<close> (lines 274-303)\<close>

text \<open>
  \<^verbatim>\<open>
  if (!name || typeof name !== 'string' || name.trim().length === 0) { throw validationError }
  \<close>
  The result is the string when the argument passes.
\<close>

definition valid_name :: "jsval \<Rightarrow> string option" where
  "valid_name v =
     (case v of
        JStr s \<Rightarrow> if s = [] \<or> length (trim s) = 0 then None else Some s
      | _ \<Rightarrow> None)"

text \<open>The pattern bound to \<^verbatim>\<open>:name\<close>: \<^verbatim>\<open>`%${name.toLowerCase().trim()}%`\<close>.\<close>

definition name_pattern :: "string \<Rightarrow> string" where
  "name_pattern s = ''%'' @ trim (toLowerCase s) @ ''%''"


text \<open>The result is \<^verbatim>\<open>deleted_count\<close>.\<close>

definition deleteCountriesByName :: "env \<Rightarrow> jsval \<Rightarrow> world \<Rightarrow> (error + nat) \<times> world" where
  "deleteCountriesByName env v w =
     (case valid_name v of
        None \<Rightarrow> (Inl ValidationError, w)
      | Some s \<Rightarrow>
          (case getMany env (name_pattern s) w of
             (Inl e, w1) \<Rightarrow> (Inl e, w1)
           | (Inr countriesToDelete, w1) \<Rightarrow>
               if length countriesToDelete = 0 then (Inl NotFoundError, w1)
               else (case remove env countriesToDelete w1 of
                       (Inl e, w2) \<Rightarrow> (Inl e, w2)
                     | (Inr deleteResult, w2) \<Rightarrow> (Inr (length deleteResult), w2))))"

section \<open>Notions used to state the properties\<close>

text \<open>The number of \<^verbatim>\<open>Math.random()\<close> calls made once a record has been transformed.\<close>

definition draws_after :: "raw_country \<Rightarrow> rates \<Rightarrow> world \<Rightarrow> nat" where
  "draws_after c rs w = (if draws_random c rs then Suc (draws w) else draws w)"

text \<open>The world once both fetches have been made, and \<^verbatim>\<open>data.rates || {}\<close>.\<close>

definition fetched :: "world \<Rightarrow> world" where
  "fetched w = w\<lparr>trace := trace w @ [HttpGet CountriesAPI, HttpGet ExchangeRateAPI]\<rparr>"

definition rates_of :: "rates option \<Rightarrow> rates" where
  "rates_of data_rates = (case data_rates of Some m \<Rightarrow> m | None \<Rightarrow> Map.empty)"

text \<open>
  A well-formed table: the keys are distinct and below the next value of the
  auto-increment counter.
\<close>

definition store_ok :: "world \<Rightarrow> bool" where
  "store_ok w = (distinct (map row_id (rows w)) \<and> (\<forall>r \<in> set (rows w). row_id r < next_id w))"

text \<open>No effect throws from the \<open>k\<close>-th of the trace on.\<close>

definition quiet :: "env \<Rightarrow> nat \<Rightarrow> bool" where
  "quiet env k = (\<forall>j\<ge>k. fault env j = None)"

text \<open>The names of the rows, in table order, and a name added when it is not there yet.\<close>

definition names :: "world \<Rightarrow> string list" where
  "names w = map (\<lambda>r. name (cols r)) (rows w)"

definition add_name :: "string list \<Rightarrow> string \<Rightarrow> string list" where
  "add_name ns n = (if n \<in> set ns then ns else ns @ [n])"


text \<open>
  The characters that are not literal in a \<^verbatim>\<open>LIKE\<close> pattern, and the reading of "the
  name contains the text as a case-insensitive substring".
\<close>

definition wildcard :: "char \<Rightarrow> bool" where
  "wildcard c = (c = CHR ''%'' \<or> c = CHR ''_'' \<or> c = CHR 0x5C)"

definition contains_ci :: "string \<Rightarrow> string \<Rightarrow> bool" where
  "contains_ci n q = sublist (toLowerCase q) (toLowerCase n)"


section \<open>Sample inputs\<close>

text \<open>
  The two records of the end-to-end scenarios:
  \<^verbatim>\<open>{name: "Wakanda", population: 1000000, currencies: []}\<close> and
  \<^verbatim>\<open>{name: "Testland", population: 100, currencies: [{code: "USD"}]}\<close>.
\<close>

definition wakanda :: raw_country where
  "wakanda = \<lparr>c_name = Some ''Wakanda'', c_capital = None, c_region = None,
     c_population = JNum 1000000, c_flag = None, c_currencies = Some []\<rparr>"

definition testland :: raw_country where
  "testland = \<lparr>c_name = Some ''Testland'', c_capital = None, c_region = None,
     c_population = JNum 100, c_flag = None, c_currencies = Some [\<lparr>code = Some ''USD''\<rparr>]\<rparr>"

text \<open>
  An empty table; an environment in which both APIs answer and nothing throws; one in
  which the ninth effect of a refresh, the writing of the image, throws; and one in which
  the sixth, the insertion of the second record, throws.
\<close>

definition empty_world :: world where
  "empty_world = \<lparr>rows = [], next_id = 1, cache = None, draws = 0, trace = []\<rparr>"

definition calm :: env where
  "calm = \<lparr>countries_api = Inr [wakanda, testland], rates_api = Inr (Some [''USD'' \<mapsto> 2]),
     math_random = (\<lambda>k. 1 / 4), fault = (\<lambda>k. None)\<rparr>"

definition disk_full :: env where
  "disk_full = calm\<lparr>fault := (\<lambda>k. if k = 8 then Some ''ENOSPC: no space left on device'' else None)\<rparr>"

definition deadlock :: env where
  "deadlock = calm\<lparr>fault := (\<lambda>k. if k = 5 then Some ''ER_LOCK_DEADLOCK'' else None)\<rparr>"


text \<open>
  Two source records whose names differ only in letter case, and two records with no
  name.
\<close>

definition france :: raw_country where
  "france = \<lparr>c_name = Some ''France'', c_capital = Some ''Paris'', c_region = Some ''Europe'',
     c_population = JNum 67391582, c_flag = None, c_currencies = Some [\<lparr>code = Some ''EUR''\<rparr>]\<rparr>"

definition france_upper :: raw_country where
  "france_upper = france\<lparr>c_name := Some ''FRANCE''\<rparr>"

definition nameless_a :: raw_country where
  "nameless_a = \<lparr>c_name = None, c_capital = Some ''A'', c_region = None,
     c_population = JNum 10, c_flag = None, c_currencies = None\<rparr>"

definition nameless_b :: raw_country where
  "nameless_b = \<lparr>c_name = Some '''', c_capital = Some ''B'', c_region = None,
     c_population = JNum 20, c_flag = None, c_currencies = None\<rparr>"


text \<open>A table of two rows, \<^verbatim>\<open>United Kingdom\<close> under key 1 and \<^verbatim>\<open>France\<close> under key 2.\<close>

definition united_kingdom :: raw_country where
  "united_kingdom = \<lparr>c_name = Some ''United Kingdom'', c_capital = Some ''London'',
     c_region = Some ''Europe'', c_population = JNum 67215293, c_flag = None,
     c_currencies = Some [\<lparr>code = Some ''GBP''\<rparr>]\<rparr>"

definition europe :: world where
  "europe = \<lparr>rows = [\<lparr>row_id = 1, cols = countryData united_kingdom Map.empty 0\<rparr>,
                     \<lparr>row_id = 2, cols = countryData france Map.empty 0\<rparr>],
              next_id = 3, cache = None, draws = 0, trace = []\<rparr>"

text \<open>
  A table of one row, the \<^verbatim>\<open>Aland Islands\<close> under key 1; the first letter of the name is
  the capital A with a ring above, \<open>U+00C5\<close>.
\<close>

definition aland_islands :: raw_country where
  "aland_islands = \<lparr>c_name = Some (CHR 0xC5 # ''land Islands''), c_capital = Some ''Mariehamn'',
     c_region = Some ''Europe'', c_population = JNum 28875, c_flag = None,
     c_currencies = Some [\<lparr>code = Some ''EUR''\<rparr>]\<rparr>"

definition baltic :: world where
  "baltic = \<lparr>rows = [\<lparr>row_id = 1, cols = countryData aland_islands Map.empty 0\<rparr>],
              next_id = 2, cache = None, draws = 0, trace = []\<rparr>"

section \<open>Properties of the numbers\<close>

subsection \<open>Rounding to the nearest double\<close>

text \<open>
  The rounded value is within half a unit in the last place: a relative error of at most
  \<open>2\<^sup>-\<^sup>5\<^sup>3\<close> from \<open>2\<^sup>-\<^sup>1\<^sup>0\<^sup>2\<^sup>2\<close> on, an absolute error of at most \<open>2\<^sup>-\<^sup>1\<^sup>0\<^sup>7\<^sup>5\<close> below; integers below
  \<open>2\<^sup>5\<^sup>3\<close> are doubles, and an integer is rounded to an integer.
\<close>

lemma pow2_powi: "pow2 e = 2 powi e"
  by (simp add: pow2_def power_int_def field_simps)

lemma pow2_pos: "0 < pow2 e"
  by (simp add: pow2_powi)

lemma pow2_Suc: "pow2 (e + 1) = 2 * pow2 e"
  by (simp add: pow2_powi power_int_add)

lemma pow2_pred: "2 * pow2 (e - 1) = pow2 e"
  using pow2_Suc[of "e - 1"] by simp

lemma pow2_nat: "pow2 (int k) = 2 ^ k"
  by (simp add: pow2_def)

lemma pow2_less_iff: "pow2 a < pow2 b \<longleftrightarrow> a < b"
proof
  assume h: "pow2 a < pow2 b"
  show "a < b"
  proof (rule ccontr)
    assume "\<not> a < b"
    then have "b \<le> a" by simp
    then have "pow2 b \<le> pow2 a"
      unfolding pow2_powi by (intro power_int_increasing) simp_all
    with h show False by simp
  qed
next
  assume "a < b"
  then show "pow2 a < pow2 b"
    unfolding pow2_powi by (intro power_int_strict_increasing) simp_all
qed

lemma pow2_le_iff: "pow2 a \<le> pow2 b \<longleftrightarrow> a \<le> b"
  using pow2_less_iff[of b a] by (simp add: not_less[symmetric])

lemma scale_down_spec:
  assumes "0 < d" "scale_down n d e = (n', d', e')"
  shows "n' = n \<and> 0 < d' \<and> e \<le> e' \<and> of_int d' * pow2 e = of_int d * pow2 e'
         \<and> n' < 9007199254740992 * d' \<and> (e' = e \<or> 4503599627370496 * d' \<le> n')"
  using assms
proof (induction n d e rule: scale_down.induct)
  case (1 n d e)
  show ?case
  proof (cases "0 < d \<and> 9007199254740992 * d \<le> n")
    case True
    have "scale_down n d e = scale_down n (2 * d) (e + 1)"
      by (simp only: scale_down.simps[of n d e] True if_True simp_thms)
    then have run: "scale_down n (2 * d) (e + 1) = (n', d', e')" using "1.prems" by (simp only:)
    have pos: "0 < 2 * d" using True by simp
    note ih = "1.IH"[OF True pos run]
    have ih1: "n' = n" and ih2: "0 < d'" and ih3: "e + 1 \<le> e'"
      and ih4: "of_int d' * pow2 (e + 1) = of_int (2 * d) * pow2 e'"
      and ih5: "n' < 9007199254740992 * d'"
      and ih6: "e' = e + 1 \<or> 4503599627370496 * d' \<le> n'"
      using ih by blast+
    have a: "of_int d' * pow2 e = of_int d * pow2 e'"
      using ih4 by (simp add: pow2_Suc)
    have b: "4503599627370496 * d' \<le> n'"
    proof (cases "e' = e + 1")
      case True
      then have "of_int d' * pow2 (e + 1) = of_int (2 * d) * pow2 (e + 1)" using ih4 by simp
      then have "(of_int d' :: rat) = of_int (2 * d)" using pow2_pos[of "e + 1"] by simp
      then have "d' = 2 * d" by (simp only: of_int_eq_iff)
      moreover have "9007199254740992 * d \<le> n'" using \<open>0 < d \<and> 9007199254740992 * d \<le> n\<close> ih1 by simp
      ultimately show ?thesis by simp
    next
      case False
      then show ?thesis using ih6 by simp
    qed
    have c: "e \<le> e'" using ih3 by simp
    show ?thesis using ih1 ih2 c a ih5 b by blast
  next
    case False
    have "scale_down n d e = (n, d, e)"
      by (simp only: scale_down.simps[of n d e] False if_False)
    then have eq: "n' = n" "d' = d" "e' = e" using "1.prems" by simp_all
    have "n < 9007199254740992 * d" using False "1.prems"(1) by simp
    then show ?thesis using eq "1.prems"(1) by simp
  qed
qed

lemma scale_up_spec:
  assumes "0 < d" "n < 9007199254740992 * d" "- 1074 \<le> e" "scale_up n d e = (n', d', e')"
  shows "d' = d \<and> e' \<le> e \<and> - 1074 \<le> e' \<and> of_int n' * pow2 e' = of_int n * pow2 e
         \<and> n' < 9007199254740992 * d \<and> (4503599627370496 * d \<le> n' \<or> e' = - 1074)
         \<and> (4503599627370496 * d \<le> n \<longrightarrow> n' = n \<and> e' = e)"
  using assms
proof (induction n d e rule: scale_up.induct)
  case (1 n d e)
  show ?case
  proof (cases "n < 4503599627370496 * d \<and> - 1074 < e")
    case True
    have "scale_up n d e = scale_up (2 * n) d (e - 1)"
      by (simp only: scale_up.simps[of n d e] True if_True simp_thms)
    then have run: "scale_up (2 * n) d (e - 1) = (n', d', e')" using "1.prems" by (simp only:)
    have lt: "2 * n < 9007199254740992 * d" using True by simp
    have ge: "- 1074 \<le> e - 1" using True by simp
    note ih = "1.IH"[OF True "1.prems"(1) lt ge run]
    have ih1: "d' = d" and ih2: "e' \<le> e - 1" and ih3: "- 1074 \<le> e'"
      and ih4: "of_int n' * pow2 e' = of_int (2 * n) * pow2 (e - 1)"
      and ih5: "n' < 9007199254740992 * d"
      and ih6: "4503599627370496 * d \<le> n' \<or> e' = - 1074"
      using ih by blast+
    have "of_int (2 * n) * pow2 (e - 1) = of_int n * pow2 e"
      using pow2_pred[of e] by (simp add: mult.assoc mult.left_commute)
    then have a: "of_int n' * pow2 e' = of_int n * pow2 e" using ih4 by simp
    have b: "e' \<le> e" using ih2 by simp
    have c: "\<not> 4503599627370496 * d \<le> n" using True by simp
    show ?thesis using ih1 b ih3 a ih5 ih6 c by blast
  next
    case False
    have "scale_up n d e = (n, d, e)"
      by (simp only: scale_up.simps[of n d e] False if_False)
    then have eq: "n' = n" "d' = d" "e' = e" using "1.prems" by simp_all
    have "4503599627370496 * d \<le> n \<or> e = - 1074" using False "1.prems"(3) by auto
    then show ?thesis using eq "1.prems" by simp
  qed
qed

lemma round_even_near:
  assumes "0 < d"
  shows "\<bar>of_int (round_even n d) - (of_int n / of_int d :: rat)\<bar> \<le> 1 / 2"
proof -
  let ?q = "n div d" and ?r = "n mod d"
  have n: "n = ?q * d + ?r" by simp
  have r: "0 \<le> ?r" "?r < d" using assms by simp_all
  have frac: "(of_int n / of_int d :: rat) = of_int ?q + of_int ?r / of_int d"
  proof -
    have "(of_int n :: rat) = of_int ?q * of_int d + of_int ?r"
      by (metis n of_int_add of_int_mult)
    then show ?thesis using assms by (simp add: field_simps)
  qed
  have d0: "(0::rat) < of_int d" using assms by simp
  have lo: "(0::rat) \<le> of_int ?r / of_int d" using r d0 by simp
  have hi: "of_int ?r / of_int d < (1::rat)" using r d0 by simp
  consider "2 * ?r < d" | "d < 2 * ?r" | "2 * ?r = d" by linarith
  then show ?thesis
  proof cases
    case 1
    then have "(of_int (2 * ?r) :: rat) < of_int d" by (simp only: of_int_less_iff)
    then have "of_int ?r / of_int d < (1 / 2 :: rat)" using d0 by (simp add: field_simps)
    moreover have "round_even n d = ?q" using 1 by (simp add: round_even_def Let_def)
    ultimately show ?thesis using lo frac by simp
  next
    case 2
    then have "(of_int d :: rat) < of_int (2 * ?r)" by (simp only: of_int_less_iff)
    then have "(1 / 2 :: rat) < of_int ?r / of_int d" using d0 by (simp add: field_simps)
    moreover have "round_even n d = ?q + 1" using 2 by (simp add: round_even_def Let_def)
    ultimately show ?thesis using hi frac by simp
  next
    case 3
    then have "(of_int (2 * ?r) :: rat) = of_int d" by simp
    then have h: "of_int ?r / of_int d = (1 / 2 :: rat)" using d0 by (simp add: field_simps)
    have "round_even n d = ?q \<or> round_even n d = ?q + 1"
      using 3 by (simp add: round_even_def Let_def)
    then show ?thesis using h frac by auto
  qed
qed

lemma round_even_exact:
  assumes "0 < d" "n mod d = 0"
  shows "round_even n d = n div d"
  using assms by (simp add: round_even_def Let_def)

lemma round_even_nonneg: "0 < d \<Longrightarrow> 0 \<le> n \<Longrightarrow> 0 \<le> round_even n d"
  by (auto simp: round_even_def Let_def pos_imp_zdiv_nonneg_iff intro: add_nonneg_nonneg)

lemma pow2_add: "pow2 (a + b) = pow2 a * pow2 b"
  by (simp add: pow2_powi power_int_add)

lemma pow2_52: "pow2 52 = 4503599627370496"
  by (simp add: pow2_def)

lemma pow2_53: "pow2 53 = 9007199254740992"
  by (simp add: pow2_def)

lemma nearest_double_spec:
  assumes a: "0 < a" and nd: "nearest_double a = (m, e)"
  shows "0 \<le> m" "m \<le> 9007199254740992" "- 1074 \<le> e"
    "\<bar>of_int m * pow2 e - a\<bar> \<le> pow2 e / 2"
    "4503599627370496 * pow2 e \<le> a \<or> e = - 1074"
    "a < 9007199254740992 * pow2 e"
proof -
  obtain p q where pq: "quotient_of a = (p, q)" by (cases "quotient_of a")
  then have q: "0 < q" and aq: "a = of_int p / of_int q"
    using quotient_of_denom_pos quotient_of_div by blast+
  have p: "0 < p" using a q aq by (simp add: zero_less_divide_iff)
  obtain n d e1 where sd: "scale_down p q 0 = (n, d, e1)" by (cases "scale_down p q 0")
  from scale_down_spec[OF q sd]
  have n: "n = p" and d: "0 < d" and e1: "0 \<le> e1"
    and dq: "of_int d * pow2 0 = of_int q * pow2 e1"
    and nd53: "n < 9007199254740992 * d" by blast+
  obtain n' d' e' where su: "scale_up n d e1 = (n', d', e')" by (cases "scale_up n d e1")
  have e1': "- 1074 \<le> e1" using e1 by simp
  from scale_up_spec[OF d nd53 e1' su]
  have d': "d' = d" and e': "- 1074 \<le> e'"
    and val: "of_int n' * pow2 e' = of_int n * pow2 e1"
    and n'53: "n' < 9007199254740992 * d"
    and norm: "4503599627370496 * d \<le> n' \<or> e' = - 1074" by blast+
  have me: "m = round_even n' d" "e = e'"
    using nd pq sd su d' by (simp_all add: nearest_double_def)
  have dr: "(0::rat) < of_int d" using d by simp
  have dq': "(of_int d :: rat) = of_int q * pow2 e1" using dq by (simp add: pow2_def)
  have a_eq: "a = of_int n' / of_int d * pow2 e'"
  proof -
    have "of_int n' / of_int d * pow2 e' = of_int n * pow2 e1 / of_int d"
      using val by simp
    also have "\<dots> = of_int p / of_int q"
      using dq' n pow2_pos[of e1] q by (simp add: field_simps)
    finally show ?thesis using aq by simp
  qed
  have n'pos: "0 < n'"
  proof -
    have "0 < of_int n' / of_int d * pow2 e'" using a a_eq by simp
    then have "(0::rat) < of_int n'" using dr pow2_pos[of e'] by (simp add: zero_less_mult_iff zero_less_divide_iff)
    then show ?thesis by simp
  qed
  show "0 \<le> m" using me round_even_nonneg[OF d, of n'] n'pos by simp
  show "- 1074 \<le> e" using me e' by simp
  have near: "\<bar>of_int m - (of_int n' / of_int d :: rat)\<bar> \<le> 1 / 2"
    using round_even_near[OF d, of n'] me by simp
  have "of_int m * pow2 e - a = (of_int m - (of_int n' / of_int d :: rat)) * pow2 e"
    unfolding a_eq me(2) by (simp only: left_diff_distrib)
  then have "\<bar>of_int m * pow2 e - a\<bar> = \<bar>of_int m - (of_int n' / of_int d :: rat)\<bar> * \<bar>pow2 e\<bar>"
    by (simp only: abs_mult)
  also have "\<dots> = \<bar>of_int m - (of_int n' / of_int d :: rat)\<bar> * pow2 e"
    using pow2_pos[of e] by simp
  also have "\<dots> \<le> 1 / 2 * pow2 e"
    using near pow2_pos[of e] by (intro mult_right_mono) simp_all
  finally show "\<bar>of_int m * pow2 e - a\<bar> \<le> pow2 e / 2" by simp
  have lt53: "(of_int n' / of_int d :: rat) < 9007199254740992"
  proof -
    have "(of_int n' :: rat) < of_int (9007199254740992 * d)" using n'53 by (simp only: of_int_less_iff)
    then show ?thesis using dr by (simp add: field_simps)
  qed
  have "of_int n' / of_int d * pow2 e' < 9007199254740992 * pow2 e'"
    using lt53 pow2_pos[of e'] by (rule mult_strict_right_mono)
  then show "a < 9007199254740992 * pow2 e"
    by (simp only: a_eq me(2))
  have "(of_int m :: rat) \<le> of_int n' / of_int d + 1 / 2" using near by linarith
  then have "(of_int m :: rat) < 9007199254740992 + 1 / 2" using lt53 by linarith
  then have "(of_int m :: rat) < of_int (9007199254740992 + 1)" by simp
  then have "m < 9007199254740992 + 1" by (simp only: of_int_less_iff)
  then show "m \<le> 9007199254740992" by simp
  show "4503599627370496 * pow2 e \<le> a \<or> e = - 1074"
  proof (cases "4503599627370496 * d \<le> n'")
    case True
    then have "(of_int (4503599627370496 * d) :: rat) \<le> of_int n'" by (simp only: of_int_le_iff)
    then have "(4503599627370496 :: rat) \<le> of_int n' / of_int d" using dr by (simp add: field_simps)
    then have "4503599627370496 * pow2 e' \<le> of_int n' / of_int d * pow2 e'"
      using pow2_pos[of e'] by (intro mult_right_mono) simp_all
    then show ?thesis by (simp only: a_eq me(2) simp_thms)
  next
    case False
    then show ?thesis using norm me by simp
  qed
qed

lemma fl_positive:
  assumes x: "0 < x" and hi: "x < pow2 1023"
  shows "\<exists>y. fl x = Num y \<and> 0 \<le> y
            \<and> \<bar>y - x\<bar> \<le> (if pow2 (- 1022) \<le> x then x / 9007199254740992 else pow2 (- 1075))"
proof -
  obtain m e where nd: "nearest_double x = (m, e)" by (cases "nearest_double x")
  note s = nearest_double_spec[OF x nd]
  have e971: "e < 971"
  proof (cases "e = - 1074")
    case True then show ?thesis by simp
  next
    case False
    with s(5) have "pow2 52 * pow2 e \<le> x" by (simp add: pow2_52)
    then have "pow2 (52 + e) < pow2 1023" using hi by (simp add: pow2_add)
    then show ?thesis by (simp add: pow2_less_iff)
  qed
  have abs: "\<bar>x\<bar> = x" using x by simp
  have run: "fl x = Num (of_int m * pow2 e)"
    using x e971 nd by (simp add: fl_def abs)
  have nn: "0 \<le> of_int m * pow2 e" using s(1) pow2_pos[of e] by simp
  have err: "\<bar>of_int m * pow2 e - x\<bar>
               \<le> (if pow2 (- 1022) \<le> x then x / 9007199254740992 else pow2 (- 1075))"
  proof (cases "pow2 (- 1022) \<le> x")
    case True
    have "4503599627370496 * pow2 e \<le> x"
    proof (cases "e = - 1074")
      case True
      have "4503599627370496 * pow2 (- 1074) = pow2 (52 + (- 1074))"
        by (simp only: pow2_add pow2_52)
      then show ?thesis using \<open>pow2 (- 1022) \<le> x\<close> True by simp
    next
      case False
      then show ?thesis using s(5) by simp
    qed
    then have "pow2 e / 2 \<le> x / 9007199254740992" by simp
    then show ?thesis using s(4) True by simp
  next
    case False
    have "e = - 1074"
    proof (rule ccontr)
      assume "e \<noteq> - 1074"
      with s(5) have "pow2 52 * pow2 e \<le> x" by (simp add: pow2_52)
      then have "pow2 (52 + e) < pow2 (- 1022)" using False by (simp add: pow2_add)
      then have "52 + e < - 1022" by (simp add: pow2_less_iff)
      then show False using s(3) by simp
    qed
    moreover have "pow2 (- 1074) / 2 = pow2 (- 1075)"
      using pow2_pred[of "- 1074"] by simp
    ultimately show ?thesis using s(4) False by simp
  qed
  show ?thesis using run nn err by blast
qed

lemma fl_int_exact:
  assumes "0 \<le> n" "n < 9007199254740992"
  shows "fl (of_int n) = Num (of_int n)"
proof (cases "n = 0")
  case True
  then show ?thesis by (simp add: fl_def)
next
  case False
  with assms have n: "0 < n" by simp
  have q: "quotient_of (of_int n) = (n, 1)" by simp
  have sd: "scale_down n 1 0 = (n, 1, 0)"
    using assms(2) by (simp only: scale_down.simps[of n 1 0]) simp
  obtain n' d' e' where su: "scale_up n 1 0 = (n', d', e')" by (cases "scale_up n 1 0")
  have lt: "n < 9007199254740992 * 1" using assms(2) by simp
  from scale_up_spec[OF _ lt _ su]
  have d': "d' = 1" and e': "e' \<le> 0" and val: "of_int n' * pow2 e' = of_int n * pow2 0"
    by simp_all
  have nd: "nearest_double (of_int n) = (n', e')"
    using q sd su d' by (simp add: nearest_double_def round_even_exact)
  have pos: "\<bar>of_int n :: rat\<bar> = of_int n" "(of_int n :: rat) \<noteq> 0" "\<not> (of_int n :: rat) < 0"
    using n by simp_all
  have "fl (of_int n) = Num (of_int n' * pow2 e')"
    using e' nd pos by (simp add: fl_def)
  then show ?thesis using val by (simp add: pow2_def)
qed

lemma fl_sign:
  "fl x = Num y \<Longrightarrow> (0 \<le> x \<longrightarrow> 0 \<le> y) \<and> (x \<le> 0 \<longrightarrow> y \<le> 0)"
  "fl x \<noteq> NaN"
  "fl x = Infinity \<Longrightarrow> 0 < x"
  "fl x = NegInfinity \<Longrightarrow> x < 0"
proof -
  obtain m e where nd: "nearest_double \<bar>x\<bar> = (m, e)" by (cases "nearest_double \<bar>x\<bar>")
  have m: "x \<noteq> 0 \<Longrightarrow> 0 \<le> m" using nearest_double_spec(1)[OF _ nd] by simp
  have v: "x \<noteq> 0 \<Longrightarrow> (0::rat) \<le> of_int m * pow2 e" using m pow2_pos[of e] by simp
  show "fl x = Num y \<Longrightarrow> (0 \<le> x \<longrightarrow> 0 \<le> y) \<and> (x \<le> 0 \<longrightarrow> y \<le> 0)"
    using v nd by (auto simp: fl_def split: if_splits)
  show "fl x \<noteq> NaN" using nd by (simp add: fl_def)
  show "fl x = Infinity \<Longrightarrow> 0 < x" using nd by (auto simp: fl_def split: if_splits)
  show "fl x = NegInfinity \<Longrightarrow> x < 0" using nd by (auto simp: fl_def split: if_splits)
qed

lemma pow2_0: "pow2 0 = 1" by (simp add: pow2_def)

lemma pow2_ge_1: "0 \<le> e \<Longrightarrow> 1 \<le> pow2 e"
  using pow2_le_iff[of 0 e] by (simp add: pow2_0)

lemma pow2_le_1: "e \<le> 0 \<Longrightarrow> pow2 e \<le> 1"
  using pow2_le_iff[of e 0] by (simp add: pow2_0)

lemma pow2_double: "2 * pow2 e = pow2 (e + 1)"
  using pow2_add[of e 1] by (simp add: pow2_def)

lemma pow2_half: "pow2 e / 2 = pow2 (e - 1)"
  using pow2_double[of "e - 1"] by simp

lemma fl_between:
  assumes A: "pow2 (- 1022) \<le> A" and x: "A \<le> x" "x \<le> B" and B: "B < pow2 1023"
  shows "\<exists>y. fl x = Num y \<and> A * (9007199254740991 / 9007199254740992) \<le> y
             \<and> y \<le> B * (9007199254740993 / 9007199254740992)"
proof -
  have x0: "0 < x" using A x(1) pow2_pos[of "- 1022"] by linarith
  have xn: "pow2 (- 1022) \<le> x" using A x(1) by linarith
  have xh: "x < pow2 1023" using x(2) B by linarith
  from fl_positive[OF x0 xh] xn obtain y where
    y: "fl x = Num y" and e: "\<bar>y - x\<bar> \<le> x / 9007199254740992" by auto
  from e have e1: "x - x / 9007199254740992 \<le> y" and e2: "y \<le> x + x / 9007199254740992"
    by linarith+
  have "A * (9007199254740991 / 9007199254740992) \<le> y" using e1 x(1) by linarith
  moreover have "y \<le> B * (9007199254740993 / 9007199254740992)" using e2 x(2) by linarith
  ultimately show ?thesis using y by blast
qed

lemma fl_upto:
  assumes x: "0 \<le> x" "x \<le> B" and Bl: "pow2 (- 1022) \<le> B" and B: "B < pow2 1023"
  shows "\<exists>y. fl x = Num y \<and> 0 \<le> y \<and> y \<le> B * (9007199254740993 / 9007199254740992)"
proof (cases "x = 0")
  case True
  have "0 \<le> B" using x by linarith
  then show ?thesis using True by (simp add: fl_def)
next
  case False
  with x have x0: "0 < x" by simp
  have xh: "x < pow2 1023" using x(2) B by linarith
  from fl_positive[OF x0 xh] obtain y where
    y: "fl x = Num y" "0 \<le> y"
    and e: "\<bar>y - x\<bar> \<le> (if pow2 (- 1022) \<le> x then x / 9007199254740992 else pow2 (- 1075))"
    by auto
  have "pow2 (- 1075) * pow2 53 = pow2 (- 1022)" using pow2_add[of "- 1075" 53] by simp
  then have sub: "pow2 (- 1075) = pow2 (- 1022) / 9007199254740992" by (simp add: pow2_53)
  have "y \<le> B * (9007199254740993 / 9007199254740992)"
  proof (cases "pow2 (- 1022) \<le> x")
    case True
    then have "\<bar>y - x\<bar> \<le> x / 9007199254740992" using e by simp
    then have "y \<le> x + x / 9007199254740992" by linarith
    then show ?thesis using x(2) by linarith
  next
    case False
    then have "\<bar>y - x\<bar> \<le> pow2 (- 1022) / 9007199254740992" using e sub by simp
    then have "y \<le> x + pow2 (- 1022) / 9007199254740992" by linarith
    then show ?thesis using x(2) Bl by linarith
  qed
  then show ?thesis using y by blast
qed

lemma pow2_10: "pow2 10 = 1024" by (simp add: pow2_def)
lemma pow2_11: "pow2 11 = 2048" by (simp add: pow2_def)
lemma pow2_70: "pow2 70 = 1180591620717411303424" by (simp add: pow2_def)

lemma randomMultiplier_bounds:
  assumes u: "0 \<le> u" "u < 1"
  shows "\<exists>m. randomMultiplier u = Num m
             \<and> 1000 * (9007199254740991 / 9007199254740992) \<le> m
             \<and> m \<le> 2000 * (9007199254740993 / 9007199254740992) * (9007199254740993 / 9007199254740992)"
proof -
  have lo: "pow2 (- 1022) \<le> 1000" using pow2_le_1[of "- 1022"] by simp
  have hi: "(1000::rat) < pow2 1023" using pow2_le_iff[of 10 1023] by (simp add: pow2_10)
  have x: "0 \<le> u * 1000" "u * 1000 \<le> 1000" using u by simp_all
  from fl_upto[OF x lo hi] obtain y0 where
    y0: "fl (u * 1000) = Num y0" "0 \<le> y0" "y0 \<le> 1000 * (9007199254740993 / 9007199254740992)"
    by blast
  have t: "times (Num u) (Num 1000) = Num y0" using y0(1) by (simp add: times_def)
  have a: "(1000::rat) \<le> y0 + 1000" using y0(2) by simp
  have b: "y0 + 1000 \<le> 2000 * (9007199254740993 / 9007199254740992)" using y0(3) by simp
  have hi2: "2000 * (9007199254740993 / 9007199254740992) < pow2 1023"
    using pow2_le_iff[of 11 1023] by (simp add: pow2_11)
  from fl_between[OF lo a b hi2] obtain m where
    m: "fl (y0 + 1000) = Num m" "1000 * (9007199254740991 / 9007199254740992) \<le> m"
       "m \<le> 2000 * (9007199254740993 / 9007199254740992) * (9007199254740993 / 9007199254740992)"
    by blast
  have "randomMultiplier u = Num m" using t m(1) by (simp add: randomMultiplier_def plus_def)
  then show ?thesis using m(2,3) by blast
qed

subsection \<open>The estimate\<close>

text \<open>
  Five roundings lie between the exact quotient and the estimate: the two of the
  multiplier, the product, the quotient, and the reading of the two decimals.
\<close>

lemma pow2_m7: "pow2 (- 7) = 1 / 128" by (simp add: pow2_def)

lemma toFixed2_bounds:
  assumes y: "0 < y" and s: "toFixed2 (Num y) = z"
  shows "\<exists>s. z = Num s
           \<and> (y - 1 / 200) * (9007199254740991 / 9007199254740992) \<le> s
           \<and> s \<le> (y + 1 / 200) * (9007199254740993 / 9007199254740992)
           \<and> 0 \<le> s"
proof (cases "1000000000000000000000 \<le> y")
  case True
  then have "z = Num y" using s y by (simp add: toFixed2_def)
  moreover have "(y - 1 / 200) * (9007199254740991 / 9007199254740992) \<le> y"
    using y by (simp add: algebra_simps)
  moreover have "y \<le> (y + 1 / 200) * (9007199254740993 / 9007199254740992)"
    using y by (simp add: algebra_simps)
  ultimately show ?thesis using y by simp
next
  case False
  define n where "n = \<lfloor>y * 100 + 1 / 2\<rfloor>"
  define x :: rat where "x = of_int n / 100"
  have ay: "\<bar>y\<bar> = y" using y by simp
  have z: "z = fl x"
    using s False y by (simp add: toFixed2_def Let_def ay n_def x_def)
  have n1: "of_int n \<le> y * 100 + 1 / 2" unfolding n_def by (rule of_int_floor_le)
  have n2: "y * 100 + 1 / 2 < of_int n + 1" unfolding n_def by linarith
  have xn: "x * 100 = of_int n" by (simp add: x_def)
  have x1: "x \<le> y + 1 / 200" using n1 xn by linarith
  have x2: "y - 1 / 200 < x" using n2 xn by linarith
  have n0: "0 \<le> n" unfolding n_def using y by (simp add: zero_le_floor)
  show ?thesis
  proof (cases "n = 0")
    case True
    then have x0: "x = 0" by (simp add: x_def)
    then have "z = Num 0" using z by (simp add: fl_def)
    moreover have "(y - 1 / 200) * (9007199254740991 / 9007199254740992) \<le> 0"
      using x2 x0 by (simp add: algebra_simps)
    moreover have "0 \<le> (y + 1 / 200) * (9007199254740993 / 9007199254740992)"
      using y by (simp add: algebra_simps)
    ultimately show ?thesis by simp
  next
    case False
    with n0 have "1 \<le> n" by simp
    then have "(1::rat) \<le> of_int n" by simp
    then have xl: "1 / 100 \<le> x" using xn by linarith
    have lo: "pow2 (- 1022) \<le> x"
      using pow2_le_iff[of "- 1022" "- 7"] xl by (simp add: pow2_m7)
    have hi: "x < pow2 1023"
      using pow2_le_iff[of 70 1023] x1 \<open>\<not> 1000000000000000000000 \<le> y\<close> by (simp add: pow2_70)
    from fl_between[OF lo order_refl order_refl hi] obtain s where
      f: "fl x = Num s" "x * (9007199254740991 / 9007199254740992) \<le> s"
         "s \<le> x * (9007199254740993 / 9007199254740992)" by blast
    have "(y - 1 / 200) * (9007199254740991 / 9007199254740992) \<le> s"
      using f(2) x2 by (simp add: algebra_simps)
    moreover have "s \<le> (y + 1 / 200) * (9007199254740993 / 9007199254740992)"
      using f(3) x1 by (simp add: algebra_simps)
    moreover have "0 \<le> s" using f(2) xl by linarith
    ultimately show ?thesis using z f(1) by simp
  qed
qed

lemma estimate_bounds:
  assumes u: "0 \<le> u" "u < 1" and p1: "1 \<le> p" and ph: "p \<le> pow2 1000" and r: "0 < r"
    and L: "pow2 (- 1000) \<le> p * 1000 / r" and H: "p * 2000 / r \<le> pow2 1000"
  shows "\<exists>s. toFixed2 (over (times (Num p) (randomMultiplier u)) (Num r)) = Num s
           \<and> p * 1000 / r * (1 - 1 / 2 ^ 50) - 1 / 200 \<le> s
           \<and> s \<le> (p * 2000 / r + 1 / 200) * (1 + 1 / 2 ^ 50)"
proof -
  define c1 :: rat where "c1 = 9007199254740991 / 9007199254740992"
  define c2 :: rat where "c2 = 9007199254740993 / 9007199254740992"
  define d1 :: rat where "d1 = 1 - 1 / 2 ^ 50"
  define d2 :: rat where "d2 = 1 + 1 / 2 ^ 50"
  define lo where "lo = p * 1000 / r"
  define hi where "hi = p * 2000 / r"
  have c: "0 < c1" "c1 \<le> 1" "1 \<le> c2" "0 < c2" "1 / 2 \<le> c1 * c1" "c2 * c2 * c2 \<le> 2"
    "1 \<le> 1000 * c1" "2000 * c2 * c2 < 2048"
    "d1 \<le> c1 * c1 * c1 * c1" "c2 * c2 * c2 * c2 * c2 \<le> d2"
    "c2 \<le> d2"
    by (simp_all add: c1_def c2_def d1_def d2_def)
  have p0: "0 < p" using p1 by linarith
  have lo0: "0 < lo" using L pow2_pos[of "- 1000"] unfolding lo_def by linarith
  have hi0: "0 < hi" using p0 r unfolding hi_def by simp
  from randomMultiplier_bounds[OF u, folded c1_def c2_def] obtain m where
    m: "randomMultiplier u = Num m" "1000 * c1 \<le> m" "m \<le> 2000 * c2 * c2" by blast
  have a3: "p * (1000 * c1) \<le> p * m" using m(2) p0 by (intro mult_left_mono) simp_all
  have b3: "p * m \<le> p * (2000 * c2 * c2)" using m(3) p0 by (intro mult_left_mono) simp_all
  have "1 * 1 \<le> p * (1000 * c1)" using p1 c(7) by (intro mult_mono) simp_all
  then have l3: "pow2 (- 1022) \<le> p * (1000 * c1)" using pow2_le_1[of "- 1022"] by simp
  have "p * (2000 * c2 * c2) \<le> pow2 1000 * (2000 * c2 * c2)"
    using ph c(4) by (intro mult_right_mono) simp_all
  also have "\<dots> < pow2 1000 * pow2 11"
    using c(8) pow2_pos[of 1000] by (simp add: pow2_11)
  also have "\<dots> = pow2 1011" using pow2_add[of 1000 11] by simp
  also have "\<dots> \<le> pow2 1023" by (simp add: pow2_le_iff)
  finally have h3: "p * (2000 * c2 * c2) < pow2 1023" .
  from fl_between[OF l3 a3 b3 h3, folded c1_def c2_def] obtain y2 where
    y2: "fl (p * m) = Num y2" "p * (1000 * c1) * c1 \<le> y2" "y2 \<le> p * (2000 * c2 * c2) * c2"
    by blast
  have t: "times (Num p) (randomMultiplier u) = Num y2" using m(1) y2(1) by (simp add: times_def)
  have e4: "lo * (c1 * c1) = p * (1000 * c1) * c1 / r" "hi * (c2 * c2 * c2) = p * (2000 * c2 * c2) * c2 / r"
    by (simp_all add: lo_def hi_def)
  have a4: "lo * (c1 * c1) \<le> y2 / r"
    unfolding e4 using y2(2) r by (intro divide_right_mono) simp_all
  have b4: "y2 / r \<le> hi * (c2 * c2 * c2)"
    unfolding e4 using y2(3) r by (intro divide_right_mono) simp_all
  have "pow2 (- 1000) * (1 / 2) \<le> lo * (c1 * c1)"
    using L c(5) pow2_pos[of "- 1000"] unfolding lo_def by (intro mult_mono) simp_all
  moreover have "pow2 (- 1000) * (1 / 2) = pow2 (- 1001)" using pow2_half[of "- 1000"] by simp
  moreover have "pow2 (- 1022) \<le> pow2 (- 1001)" by (simp add: pow2_le_iff)
  ultimately have l4: "pow2 (- 1022) \<le> lo * (c1 * c1)" by linarith
  have "hi * (c2 * c2 * c2) \<le> pow2 1000 * 2"
    using H c(6) hi0 c(4) unfolding hi_def by (intro mult_mono) simp_all
  moreover have "pow2 1000 * 2 = pow2 1001" using pow2_double[of 1000] by simp
  moreover have "pow2 1001 < pow2 1023" by (simp add: pow2_less_iff)
  ultimately have h4: "hi * (c2 * c2 * c2) < pow2 1023" by linarith
  from fl_between[OF l4 a4 b4 h4, folded c1_def c2_def] obtain y3 where
    y3: "fl (y2 / r) = Num y3" "lo * (c1 * c1) * c1 \<le> y3" "y3 \<le> hi * (c2 * c2 * c2) * c2"
    by blast
  have o: "over (times (Num p) (randomMultiplier u)) (Num r) = Num y3"
    using t y3(1) r by (simp add: over_def)
  have "0 < lo * (c1 * c1) * c1" using lo0 c(1) by simp
  then have y3pos: "0 < y3" using y3(2) by linarith
  from toFixed2_bounds[OF y3pos refl, folded c1_def c2_def] obtain s where
    s: "toFixed2 (Num y3) = Num s" "(y3 - 1 / 200) * c1 \<le> s" "s \<le> (y3 + 1 / 200) * c2"
    by blast
  have "lo * d1 \<le> lo * (c1 * c1 * c1 * c1)"
    using c(9) lo0 by (intro mult_left_mono) simp_all
  also have "\<dots> = lo * (c1 * c1) * c1 * c1" by simp
  also have "\<dots> \<le> y3 * c1" using y3(2) c(1) by (intro mult_right_mono) simp_all
  finally have low: "lo * d1 \<le> y3 * c1" .
  have "(y3 - 1 / 200) * c1 = y3 * c1 - c1 / 200" by (simp add: algebra_simps)
  then have lower: "lo * d1 - 1 / 200 \<le> s" using low s(2) c(2) by linarith
  have "y3 * c2 \<le> hi * (c2 * c2 * c2) * c2 * c2" using y3(3) c(4) by (intro mult_right_mono) simp_all
  also have "\<dots> = hi * (c2 * c2 * c2 * c2 * c2)" by simp
  also have "\<dots> \<le> hi * d2" using c(10) hi0 by (intro mult_left_mono) simp_all
  finally have up: "y3 * c2 \<le> hi * d2" .
  have "(y3 + 1 / 200) * c2 = y3 * c2 + c2 / 200" by (simp add: algebra_simps)
  moreover have "(hi + 1 / 200) * d2 = hi * d2 + d2 / 200"
    by (simp add: algebra_simps)
  ultimately have upper: "s \<le> (hi + 1 / 200) * d2" using up s(3) c(11) by linarith
  show ?thesis using o s(1) lower upper unfolding lo_def hi_def d1_def d2_def by simp
qed

subsection \<open>\<^verbatim>\<open>parseInt\<close>\<close>

lemma nearest_double_int:
  assumes k: "0 < k" and nd: "nearest_double (of_int k) = (m, e)"
  shows "\<exists>j::int. of_int m * pow2 e = of_int j"
proof -
  have q: "quotient_of (of_int k) = (k, 1)" by simp
  obtain n d e1 where sd: "scale_down k 1 0 = (n, d, e1)" by (cases "scale_down k 1 0")
  from scale_down_spec[OF zero_less_one sd]
  have n: "n = k" and d: "0 < d" and e1: "0 \<le> e1"
    and dq: "of_int d * pow2 0 = of_int 1 * pow2 e1"
    and n53: "n < 9007199254740992 * d"
    and c: "e1 = 0 \<or> 4503599627370496 * d \<le> n" by blast+
  obtain n' d' e' where su: "scale_up n d e1 = (n', d', e')" by (cases "scale_up n d e1")
  have e1': "- 1074 \<le> e1" using e1 by simp
  from scale_up_spec[OF d n53 e1' su]
  have d': "d' = d" and val: "of_int n' * pow2 e' = of_int n * pow2 e1"
    and same: "4503599627370496 * d \<le> n \<longrightarrow> n' = n \<and> e' = e1" by blast+
  have me: "m = round_even n' d" "e = e'"
    using nd q sd su d' by (simp_all add: nearest_double_def)
  show ?thesis
  proof (cases "4503599627370496 * d \<le> n")
    case True
    with same have "e = e1" using me by simp
    then have "of_int m * pow2 e = of_int (m * 2 ^ nat e1)" using e1 by (simp add: pow2_def)
    then show ?thesis by blast
  next
    case False
    with c have z: "e1 = 0" by simp
    then have "(of_int d :: rat) = 1" using dq by (simp add: pow2_def)
    then have "d = 1" by simp
    then have "m = n'" using me by (simp add: round_even_exact)
    then have "of_int m * pow2 e = of_int k" using val me n z by (simp add: pow2_def)
    then show ?thesis by blast
  qed
qed

lemma fl_int:
  assumes "fl (of_int k) = Num y"
  shows "\<exists>j::int. y = of_int j"
proof (cases "k = 0")
  case True
  with assms have "y = of_int 0" by (simp add: fl_def)
  then show ?thesis by blast
next
  case False
  obtain m e where nd: "nearest_double \<bar>of_int k\<bar> = (m, e)"
    by (cases "nearest_double \<bar>of_int k :: rat\<bar>")
  have a: "\<bar>of_int k :: rat\<bar> = of_int \<bar>k\<bar>" by simp
  have "0 < \<bar>k\<bar>" using False by simp
  from nearest_double_int[OF this nd[unfolded a]] obtain j :: int where
    j: "of_int m * pow2 e = of_int j" by blast
  have "y = (if (of_int k :: rat) < 0 then - 1 else 1) * (of_int m * pow2 e)"
    using assms False nd by (simp add: fl_def split: if_splits)
  then have "y = of_int ((if k < 0 then - 1 else 1) * j)" using j by simp
  then show ?thesis by blast
qed

lemma parseInt_number_int:
  assumes "parseInt_number d = Num y"
  shows "\<exists>j::int. y = of_int j"
proof (cases d)
  case (Num x)
  have "y = of_int 0 \<or> y = of_int ((if x < 0 then - 1 else 1) * \<lfloor>\<bar>x\<bar>\<rfloor>)
        \<or> y = of_int ((if x < 0 then - 1 else 1) * first_digit \<bar>x\<bar>)"
    using assms Num by (simp add: parseInt_number_def split: if_splits)
  then show ?thesis by blast
qed (use assms in \<open>simp_all add: parseInt_number_def\<close>)

lemma parseInt_string_int:
  assumes "parseInt_string s = Num y"
  shows "\<exists>j::int. y = of_int j"
proof -
  from assms obtain c n where "fl ((if c = CHR ''-'' then - 1 else 1) * of_nat n) = Num y"
    by (auto simp: parseInt_string_def split: list.splits option.splits)
  moreover have "((if c = CHR ''-'' then - 1 else 1) * of_nat n :: rat)
                   = of_int ((if c = CHR ''-'' then - 1 else 1) * int n)" by simp
  ultimately have "fl (of_int ((if c = CHR ''-'' then - 1 else 1) * int n)) = Num y"
    by (simp only:)
  then show ?thesis by (rule fl_int)
qed

lemma parseInt_int: "parseInt v = Num y \<Longrightarrow> \<exists>j::int. y = of_int j"
  by (cases v) (simp_all add: parseInt_def parseInt_number_int parseInt_string_int)

lemma population_of_int:
  assumes "population_of c = Num y"
  shows "\<exists>j::int. y = of_int j"
proof (cases "truthy (parseInt (c_population c))")
  case True
  then have "parseInt (c_population c) = Num y" using assms by (simp add: population_of_def Let_def)
  then show ?thesis by (rule parseInt_int)
next
  case False
  then have "y = of_int 0" using assms by (simp add: population_of_def Let_def)
  then show ?thesis by blast
qed

lemma dec_down_spec:
  "dec_down n d E = (n', d', E') \<Longrightarrow> 0 < d \<Longrightarrow> n' = n \<and> 0 < d'"
proof (induction n d E rule: dec_down.induct)
  case (1 n d E)
  show ?case
  proof (cases "0 < d \<and> 10 * d \<le> n")
    case True
    then have "dec_down n (10 * d) (E + 1) = (n', d', E')"
      using "1.prems"(1) by (simp only: dec_down.simps[of n d E] if_True simp_thms)
    then show ?thesis using "1.IH"[OF True] True by simp
  next
    case False
    then have "(n, d, E) = (n', d', E')"
      using "1.prems"(1) by (simp only: dec_down.simps[of n d E] if_False simp_thms)
    then show ?thesis using "1.prems"(2) by simp
  qed
qed

lemma dec_up_spec:
  "dec_up n d E = (n', d', E') \<Longrightarrow> 0 \<le> n \<Longrightarrow> 0 \<le> n' \<and> d' = d"
proof (induction n d E rule: dec_up.induct)
  case (1 n d E)
  show ?case
  proof (cases "0 < n \<and> n < d")
    case True
    then have "dec_up (10 * n) d (E - 1) = (n', d', E')"
      using "1.prems"(1) by (simp only: dec_up.simps[of n d E] if_True simp_thms)
    then show ?thesis using "1.IH"[OF True] True by simp
  next
    case False
    then have "(n, d, E) = (n', d', E')"
      using "1.prems"(1) by (simp only: dec_up.simps[of n d E] if_False simp_thms)
    then show ?thesis using "1.prems"(2) by simp
  qed
qed

lemma shortest_from_nonneg:
  "shortest_from x n d E k = (s, j) \<Longrightarrow> 0 \<le> n \<Longrightarrow> 0 < d \<Longrightarrow> 0 \<le> s"
proof (induction x n d E k rule: shortest_from.induct)
  case (1 x n d E k)
  define s0 where "s0 = (n * 10 ^ (k - 1)) div d"
  have s0: "0 \<le> s0" unfolding s0_def using "1.prems"(2,3) by (simp add: pos_imp_zdiv_nonneg_iff)
  define l where "l = (fl (of_int s0 * pow10 (E - int k + 1)) = Num x)"
  define h where "h = (fl (of_int (s0 + 1) * pow10 (E - int k + 1)) = Num x)"
  show ?case
  proof (cases "17 \<le> k \<or> l \<or> h")
    case True
    then have "s = s0 \<or> s = s0 + 1"
      using "1.prems"(1) unfolding shortest_from.simps[of x n d E k] Let_def s0_def l_def h_def
      by (auto split: if_splits)
    then show ?thesis using s0 by auto
  next
    case False
    then have "shortest_from x n d E (Suc k) = (s, j)"
      using "1.prems"(1) unfolding shortest_from.simps[of x n d E k] Let_def s0_def l_def h_def
      by (simp split: if_splits)
    moreover have "\<not> (17 \<le> k \<or> fl (of_int ((n * 10 ^ (k - 1)) div d) * pow10 (E - int k + 1)) = Num x
        \<or> fl (of_int ((n * 10 ^ (k - 1)) div d + 1) * pow10 (E - int k + 1)) = Num x)"
      using False unfolding s0_def l_def h_def by simp
    ultimately show ?thesis using "1.IH"[OF refl refl refl refl refl] "1.prems"(2,3) by blast
  qed
qed


lemma first_digit_nonneg:
  assumes "0 \<le> x"
  shows "0 \<le> first_digit x"
proof -
  obtain p q where pq: "quotient_of x = (p, q)" by (cases "quotient_of x")
  then have q: "0 < q" and xq: "x = of_int p / of_int q"
    using quotient_of_denom_pos quotient_of_div by blast+
  have p: "0 \<le> p" using assms q xq by (simp add: zero_le_divide_iff)
  obtain n d E where dd: "dec_down p q 0 = (n, d, E)" by (cases "dec_down p q 0")
  from dec_down_spec[OF dd q] have n: "n = p" and d: "0 < d" by simp_all
  obtain n' d' E' where du: "dec_up n d E = (n', d', E')" by (cases "dec_up n d E")
  from dec_up_spec[OF du] n p have n': "0 \<le> n'" and d': "d' = d" by simp_all
  obtain s k where sf: "shortest_from x n' d' E' 1 = (s, k)"
    by (cases "shortest_from x n' d' E' 1")
  from shortest_from_nonneg[OF sf n'] d d' have s: "0 \<le> s" by simp
  have "first_digit x = (if s = 10 ^ k then 1 else s div 10 ^ (k - 1))"
    using pq dd du sf by (simp add: first_digit_def)
  then show ?thesis using s by (simp add: pos_imp_zdiv_nonneg_iff)
qed

lemma parseInt_number_sign:
  assumes "parseInt_number (Num x) = Num y" "y < 0"
  shows "x < 0"
proof (rule ccontr)
  assume "\<not> x < 0"
  then have "y = 0 \<or> y = of_int \<lfloor>\<bar>x\<bar>\<rfloor> \<or> y = of_int (first_digit \<bar>x\<bar>)"
    using assms(1) by (simp add: parseInt_number_def split: if_splits)
  moreover have "(0::rat) \<le> of_int \<lfloor>\<bar>x\<bar>\<rfloor>" by simp
  moreover have "(0::rat) \<le> of_int (first_digit \<bar>x\<bar>)" using first_digit_nonneg[of "\<bar>x\<bar>"] by simp
  ultimately show False using assms(2) by linarith
qed

lemma parseInt_negative:
  assumes "negative (parseInt v)"
  shows "(\<exists>x. v = JNum x \<and> x < 0) \<or> (\<exists>s rest. v = JStr s \<and> trim_start s = CHR ''-'' # rest)"
proof (cases v)
  case (JNum x)
  from assms JNum obtain x' y where f: "fl x = Num x'" and y: "parseInt_number (Num x') = Num y" "y < 0"
    by (cases "fl x"; cases "parseInt_number (fl x)")
       (auto simp: parseInt_def negative_def parseInt_number_def split: if_splits)
  from parseInt_number_sign[OF y] have "x' < 0" .
  then have "x < 0" using fl_sign(1)[OF f] by auto
  then show ?thesis using JNum by simp
next
  case (JStr s)
  from assms JStr have n: "negative (parseInt_string s)" by (simp add: parseInt_def)
  then obtain c rest where t: "trim_start s = c # rest"
    by (cases "trim_start s") (auto simp: parseInt_string_def negative_def)
  show ?thesis
  proof (cases "c = CHR ''-''")
    case True
    then show ?thesis using JStr t by simp
  next
    case False
    from n t False obtain k where k: "negative (fl (of_nat k))"
      by (auto simp: parseInt_string_def negative_def split: option.splits)
    have "(0::rat) \<le> of_nat k" by simp
    then have False using k fl_sign[of "of_nat k"]
      by (cases "fl (of_nat k)") (auto simp: negative_def)
    then show ?thesis ..
  qed
qed (use assms in \<open>simp_all add: parseInt_def negative_def\<close>)

lemma parse_radix_no_digit: "(case t of [] \<Rightarrow> True | e # r \<Rightarrow> \<not> is_digit R e) \<Longrightarrow> parse_radix R t = None"
  by (cases t) (simp_all add: parse_radix_def)

lemma is_digit_zero: "is_digit 10 CHR ''0''"
  by (simp add: is_digit_def digit_of_def)

lemma parse_unsigned_no_digit:
  assumes "case t of [] \<Rightarrow> True | e # r \<Rightarrow> \<not> is_digit 10 e"
  shows "parse_unsigned t = None"
proof (cases t)
  case Nil then show ?thesis by (simp add: parse_unsigned_def parse_radix_def)
next
  case (Cons e r)
  with assms have n: "\<not> is_digit 10 e" by simp
  then have "e \<noteq> CHR ''0''" using is_digit_zero by auto
  then show ?thesis using Cons n
    by (cases r) (simp_all add: parse_unsigned_def parse_radix_def)
qed

lemma parseInt_string_no_digit: "\<not> begins_with_digit s \<Longrightarrow> parseInt_string s = NaN"
proof (cases "trim_start s")
  case Nil then show ?thesis by (simp add: parseInt_string_def)
next
  case (Cons c rest)
  assume n: "\<not> begins_with_digit s"
  show ?thesis
  proof (cases "c = CHR ''-'' \<or> c = CHR ''+''")
    case True
    with n Cons have "case rest of [] \<Rightarrow> True | e # r \<Rightarrow> \<not> is_digit 10 e"
      by (auto simp: begins_with_digit_def split: list.splits)
    then have "parse_unsigned rest = None" by (rule parse_unsigned_no_digit)
    with True Cons show ?thesis by (auto simp: parseInt_string_def)
  next
    case False
    with n Cons have "\<not> is_digit 10 c" by (simp add: begins_with_digit_def)
    then have "parse_unsigned (c # rest) = None" by (intro parse_unsigned_no_digit) simp
    with False Cons show ?thesis by (simp add: parseInt_string_def)
  qed
qed

lemma parseInt_small_int:
  assumes "0 \<le> n" "n < 9007199254740992"
  shows "parseInt (JNum (of_int n)) = Num (of_int n)"
proof (cases "n = 0")
  case True then show ?thesis by (simp add: parseInt_def parseInt_number_def fl_def)
next
  case False
  with assms have "1 \<le> n" by simp
  then have a: "(1::rat) \<le> of_int n" by simp
  then have b: "(1 / 1000000 :: rat) \<le> of_int n" by linarith
  have "(of_int n :: rat) < of_int 9007199254740992" using assms(2) by (simp only: of_int_less_iff)
  then have c: "(of_int n :: rat) < 1000000000000000000000" by simp
  have d: "\<bar>of_int n :: rat\<bar> = of_int n" using assms(1) by simp
  have e: "(of_int n :: rat) \<noteq> 0" "\<not> (of_int n :: rat) < 0" using a by simp_all
  have "parseInt_number (Num (of_int n)) = Num (of_int n)"
    unfolding parseInt_number_def using b c d e by simp
  then show ?thesis using fl_int_exact[OF assms] by (simp add: parseInt_def)
qed

section \<open>Properties of the record transformer\<close>

lemma toFixed2_0: "toFixed2 (Num 0) = Num 0"
  by (simp add: toFixed2_def fl_def floor_eq_iff)

lemma positive_int: "population_of c = Num p \<Longrightarrow> 0 < p \<Longrightarrow> 1 \<le> p"
proof -
  assume a: "population_of c = Num p" and b: "0 < p"
  from population_of_int[OF a] obtain j :: int where j: "p = of_int j" by blast
  with b have "0 < j" by simp
  then have "1 \<le> j" by simp
  then show "1 \<le> p" using j by simp
qed

text \<open>
  C1, as the spec states it, fails: with the multiplier at its lower end the estimate of
  \<open>testland\<close> at a rate of 512 is \<open>195.3125\<close>, which is stored as the double nearest to
  \<open>195.31\<close>, below \<open>population * 1000 / rate\<close>.
\<close>

theorem estimate_below_interval:
  "population (countryData testland [''USD'' \<mapsto> 512] 0) = Num 100
   \<and> exchange_rate (countryData testland [''USD'' \<mapsto> 512] 0) = Some (Rate (Num 512))
   \<and> estimated_gbp (countryData testland [''USD'' \<mapsto> 512] 0)
       = Num (3435929856334889 / 17592186044416)
   \<and> (3435929856334889 / 17592186044416 :: rat) < 100 * 1000 / 512"
  by code_simp

text \<open>
  C1 (amended): when the population is positive and a positive exchange rate was resolved,
  and the population, \<open>population * 1000 / rate\<close> and \<open>population * 2000 / rate\<close> are
  between \<open>2\<^sup>-\<^sup>1\<^sup>0\<^sup>0\<^sup>0\<close> and \<open>2\<^sup>1\<^sup>0\<^sup>0\<^sup>0\<close> (no operation leaves the range of the doubles), the
  estimate is \<open>population * m / rate\<close> for the multiplier \<open>m = u * 1000 + 1000\<close> of the draw
  \<open>u\<close> in \<open>[0, 1)\<close>, each operation rounded to the nearest double, the result rounded to two
  decimal places and read back as a double; so it lies within \<open>0.005\<close> of the interval from
  \<open>population * 1000 / rate\<close> to \<open>population * 2000 / rate\<close>, up to a relative rounding
  error of \<open>2\<^sup>-\<^sup>5\<^sup>0\<close>. When the population is not positive, or no number was resolved as the
  rate, or the rate is not positive, the estimate is 0.
\<close>

theorem estimate_rounded_near_interval:
  fixes c :: raw_country and rs :: rates and u p r :: rat
  defines "d \<equiv> countryData c rs u"
  assumes u: "0 \<le> u" "u < 1"
  shows "(population d = Num p \<and> 0 < p \<and> p \<le> pow2 1000
            \<and> exchange_rate d = Some (Rate (Num r)) \<and> 0 < r
            \<and> pow2 (- 1000) \<le> p * 1000 / r \<and> p * 2000 / r \<le> pow2 1000 \<longrightarrow>
            estimated_gbp d = toFixed2 (over (times (Num p) (randomMultiplier u)) (Num r)) \<and>
            (\<exists>s. estimated_gbp d = Num s
                \<and> p * 1000 / r * (1 - 1 / 2 ^ 50) - 1 / 200 \<le> s
                \<and> s \<le> (p * 2000 / r + 1 / 200) * (1 + 1 / 2 ^ 50)))
       \<and> (\<not> (positive (population d) \<and> (\<exists>r'. exchange_rate d = Some (Rate r') \<and> positive r')) \<longrightarrow>
            estimated_gbp d = Num 0)"
proof (intro conjI impI)
  assume h: "population d = Num p \<and> 0 < p \<and> p \<le> pow2 1000
            \<and> exchange_rate d = Some (Rate (Num r)) \<and> 0 < r
            \<and> pow2 (- 1000) \<le> p * 1000 / r \<and> p * 2000 / r \<le> pow2 1000"
  then have p: "population_of c = Num p" "0 < p" "p \<le> pow2 1000"
    and e: "exchangeRate c rs = Some (Rate (Num r))" and r: "0 < r"
    and L: "pow2 (- 1000) \<le> p * 1000 / r" and H: "p * 2000 / r \<le> pow2 1000"
    by (simp_all add: d_def countryData_def)
  have dr: "draws_random c rs" using p(1,2) e r by (simp add: draws_random_def positive_def)
  have est: "estimatedGbp c rs u = over (times (Num p) (randomMultiplier u)) (Num r)"
    using dr e p(1) by (simp add: estimatedGbp_def)
  show eq: "estimated_gbp d = toFixed2 (over (times (Num p) (randomMultiplier u)) (Num r))"
    using est by (simp add: d_def countryData_def)
  have p1: "1 \<le> p" using positive_int[OF p(1,2)] .
  from estimate_bounds[OF u p1 p(3) r L H]
  show "\<exists>s. estimated_gbp d = Num s
                \<and> p * 1000 / r * (1 - 1 / 2 ^ 50) - 1 / 200 \<le> s
                \<and> s \<le> (p * 2000 / r + 1 / 200) * (1 + 1 / 2 ^ 50)"
    unfolding eq .
next
  assume n: "\<not> (positive (population d) \<and> (\<exists>r'. exchange_rate d = Some (Rate r') \<and> positive r'))"
  have "\<not> draws_random c rs"
  proof
    assume "draws_random c rs"
    then have "positive (population_of c)"
      and "\<exists>r'. exchangeRate c rs = Some (Rate r') \<and> positive r'"
      by (auto simp: draws_random_def split: option.splits rate_value.splits)
    then show False using n by (simp add: d_def countryData_def)
  qed
  then show "estimated_gbp d = Num 0"
    by (simp add: d_def countryData_def estimatedGbp_def toFixed2_0)
qed

text \<open>
  The theorem at the scenarios of the spec: \<open>testland\<close> at a rate of 2 with the draw
  \<open>1/4\<close> has the estimate 62500, inside \<open>[50000, 100000]\<close>; with the population 201, the
  rate 200000 and the draw 0 the quotient is the double below \<open>1.005\<close> and the estimate is
  1; \<open>wakanda\<close>, with no currency, has the estimate 0.
\<close>

theorem estimate_rounded_near_interval_witness:
  "estimated_gbp (countryData testland [''USD'' \<mapsto> 2] (1 / 4)) = Num 62500
   \<and> 100 * 1000 / 2 * (1 - 1 / 2 ^ 50) - 1 / 200 \<le> (62500 :: rat)
   \<and> (62500 :: rat) \<le> (100 * 2000 / 2 + 1 / 200) * (1 + 1 / 2 ^ 50)
   \<and> estimated_gbp (countryData (testland\<lparr>c_population := JNum 201\<rparr>) [''USD'' \<mapsto> 200000] 0) = Num 1
   \<and> estimated_gbp (countryData wakanda [''USD'' \<mapsto> 1] (1 / 4)) = Num 0"
proof -
  let ?d = "countryData testland [''USD'' \<mapsto> 2] (1 / 4)"
  let ?f = "countryData (testland\<lparr>c_population := JNum 201\<rparr>) [''USD'' \<mapsto> 200000] 0"
  let ?e = "countryData wakanda [''USD'' \<mapsto> 1] (1 / 4)"
  have u: "(0::rat) \<le> 1 / 4" "(1 / 4 :: rat) < 1" by simp_all
  have u0: "(0::rat) \<le> 0" "(0 :: rat) < 1" by simp_all
  have p: "population ?d = Num 100" by code_simp
  have x: "exchange_rate ?d = Some (Rate (Num 2))" by code_simp
  have v: "toFixed2 (over (times (Num 100) (randomMultiplier (1 / 4))) (Num 2)) = Num 62500"
    by code_simp
  have p': "population ?f = Num 201" by code_simp
  have x': "exchange_rate ?f = Some (Rate (Num 200000))" by code_simp
  have v': "toFixed2 (over (times (Num 201) (randomMultiplier 0)) (Num 200000)) = Num 1"
    by code_simp
  have n: "exchange_rate ?e = None" by code_simp
  have b: "(100 :: rat) \<le> pow2 1000" "pow2 (- 1000) \<le> (100 * 1000 / 2 :: rat)"
    "(100 * 2000 / 2 :: rat) \<le> pow2 1000"
    using pow2_le_iff[of 17 1000] pow2_le_1[of "- 1000"] by (simp_all add: pow2_def)
  have b': "(201 :: rat) \<le> pow2 1000" "pow2 (- 1000) \<le> (201 * 1000 / 200000 :: rat)"
    "(201 * 2000 / 200000 :: rat) \<le> pow2 1000"
    using pow2_le_iff[of 8 1000] pow2_le_iff[of "- 1000" "- 1"] by (simp_all add: pow2_def)
  have h: "population ?d = Num 100 \<and> (0::rat) < 100 \<and> 100 \<le> pow2 1000
            \<and> exchange_rate ?d = Some (Rate (Num 2)) \<and> (0::rat) < 2
            \<and> pow2 (- 1000) \<le> 100 * 1000 / 2 \<and> 100 * 2000 / 2 \<le> pow2 1000"
    using p x b by simp
  have h': "population ?f = Num 201 \<and> (0::rat) < 201 \<and> 201 \<le> pow2 1000
            \<and> exchange_rate ?f = Some (Rate (Num 200000)) \<and> (0::rat) < 200000
            \<and> pow2 (- 1000) \<le> 201 * 1000 / 200000 \<and> 201 * 2000 / 200000 \<le> pow2 1000"
    using p' x' b' by simp
  have g: "\<not> (positive (population ?e) \<and> (\<exists>r'. exchange_rate ?e = Some (Rate r') \<and> positive r'))"
    using n by simp
  from estimate_rounded_near_interval[OF u, of testland "[''USD'' \<mapsto> 2]" 100 2] h
  have t1: "estimated_gbp ?d = toFixed2 (over (times (Num 100) (randomMultiplier (1 / 4))) (Num 2))"
    and t2: "\<exists>s. estimated_gbp ?d = Num s
                \<and> 100 * 1000 / 2 * (1 - 1 / 2 ^ 50) - 1 / 200 \<le> s
                \<and> s \<le> (100 * 2000 / 2 + 1 / 200) * (1 + 1 / 2 ^ 50)"
    by blast+
  have a1: "estimated_gbp ?d = Num 62500" by (simp only: t1 v)
  from t2 obtain s where "Num 62500 = Num s"
      "100 * 1000 / 2 * (1 - 1 / 2 ^ 50) - 1 / 200 \<le> s"
      "s \<le> (100 * 2000 / 2 + 1 / 200) * (1 + 1 / 2 ^ 50)"
    unfolding a1 by blast
  then have a2: "100 * 1000 / 2 * (1 - 1 / 2 ^ 50) - 1 / 200 \<le> (62500 :: rat)"
    and a3: "(62500 :: rat) \<le> (100 * 2000 / 2 + 1 / 200) * (1 + 1 / 2 ^ 50)"
    by simp_all
  from estimate_rounded_near_interval[OF u0, of "testland\<lparr>c_population := JNum 201\<rparr>"
      "[''USD'' \<mapsto> 200000]" 201 200000] h'
  have "estimated_gbp ?f = toFixed2 (over (times (Num 201) (randomMultiplier 0)) (Num 200000))"
    by blast
  then have a4: "estimated_gbp ?f = Num 1" by (simp only: v')
  from estimate_rounded_near_interval[OF u, of wakanda "[''USD'' \<mapsto> 1]"] g
  have a5: "estimated_gbp ?e = Num 0" by blast
  show ?thesis using a1 a2 a3 a4 a5 by blast
qed

text \<open>
  C2: the code does not do what the claim says, and what its own comments say (line 128,
  "Get exchange rate if currency code is found in exchange rates API"; line 132, "If
  currency_code is not found in exchange rates API, set to null"). The test at line 129 is
  a truthiness test on the value, not a test for the key: a rate of zero is in the mapping
  under the code of the first currency and the exchange rate of the record is absent; the
  code \<^verbatim>\<open>constructor\<close> is not in the mapping and the exchange rate of the record is
  present, the function every object inherits under that name.
\<close>

theorem zero_rate_is_dropped:
  "c_currencies testland = Some [\<lparr>code = Some ''USD''\<rparr>]
   \<and> [''USD'' \<mapsto> 0 :: rat] ''USD'' = Some 0
   \<and> currency_code (countryData testland [''USD'' \<mapsto> 0] 0) = Some ''USD''
   \<and> exchange_rate (countryData testland [''USD'' \<mapsto> 0] 0) = None
   \<and> (Map.empty :: rates) ''constructor'' = None
   \<and> exchange_rate
        (countryData (testland\<lparr>c_currencies := Some [\<lparr>code = Some ''constructor''\<rparr>]\<rparr>) Map.empty 0)
       = Some (Builtin ''constructor'')"
  by code_simp

section \<open>Properties of the refresh pipeline\<close>

lemma name_countryData: "name (countryData c rs u) = countryName c"
  by (simp add: countryData_def)


lemma process_country_found:
  assumes f: "fault env (length (trace w)) = None" "fault env (Suc (length (trace w))) = None"
    and d: "d = countryData c rs (math_random env (draws w))"
    and r: "find (\<lambda>r. name (cols r) = name d) (rows w) = Some r"
  shows "process_country env rs c w =
    (Inr (), w\<lparr>rows := map (\<lambda>x. if row_id x = row_id r then x\<lparr>cols := d\<rparr> else x) (rows w),
              draws := draws_after c rs w,
              trace := trace w @ [FindOne (name d), Update (row_id r)]\<rparr>)"
  using f r unfolding d
  by (simp add: process_country_def Let_def findOne_def update_def io_def draws_after_def)

lemma process_country_new:
  assumes f: "fault env (length (trace w)) = None" "fault env (Suc (length (trace w))) = None"
    and d: "d = countryData c rs (math_random env (draws w))"
    and r: "find (\<lambda>r. name (cols r) = name d) (rows w) = None"
  shows "process_country env rs c w =
    (Inr (), w\<lparr>rows := rows w @ [\<lparr>row_id = next_id w, cols = d\<rparr>],
              next_id := Suc (next_id w),
              draws := draws_after c rs w,
              trace := trace w @ [FindOne (name d), Save (name d)]\<rparr>)"
  using f r unfolding d
  by (simp add: process_country_def Let_def findOne_def save_def io_def draws_after_def)

lemma process_country_lookup_fails:
  assumes f: "fault env (length (trace w)) = Some m"
    and d: "d = countryData c rs (math_random env (draws w))"
  shows "process_country env rs c w =
    (Inl (Error m), w\<lparr>draws := draws_after c rs w, trace := trace w @ [FindOne (name d)]\<rparr>)"
  using f unfolding d
  by (simp add: process_country_def Let_def findOne_def io_def draws_after_def)

lemma process_country_write_fails:
  assumes f: "fault env (length (trace w)) = None" "fault env (Suc (length (trace w))) = Some m"
    and d: "d = countryData c rs (math_random env (draws w))"
  shows "process_country env rs c w =
    (Inl (Error m), w\<lparr>draws := draws_after c rs w,
       trace := trace w @ [FindOne (name d),
         (case find (\<lambda>r. name (cols r) = name d) (rows w) of
            Some r \<Rightarrow> Update (row_id r) | None \<Rightarrow> Save (name d))]\<rparr>)"
  using f unfolding d
  by (simp add: process_country_def Let_def findOne_def save_def update_def io_def draws_after_def
           split: option.splits)

lemma process_countries_append:
  "process_countries env rs (xs @ ys) w =
     (case process_countries env rs xs w of
        (Inl e, w') \<Rightarrow> (Inl e, w')
      | (Inr u, w') \<Rightarrow> process_countries env rs ys w')"
  by (induction xs arbitrary: w) (auto split: prod.splits sum.splits)



lemma find_first_index:
  assumes "find P xs = Some r"
  shows "\<exists>i<length xs. xs ! i = r \<and> P r \<and> (\<forall>j<i. \<not> P (xs ! j))"
  using assms by (auto simp: find_Some_iff)

lemma update_by_id_is_list_update:
  assumes "distinct (map row_id xs)" "i < length xs"
  shows "map (\<lambda>x. if row_id x = row_id (xs ! i) then x\<lparr>cols := d\<rparr> else x) xs
           = xs[i := (xs ! i)\<lparr>cols := d\<rparr>]"
proof (rule nth_equalityI)
  show "length (map (\<lambda>x. if row_id x = row_id (xs ! i) then x\<lparr>cols := d\<rparr> else x) xs)
          = length (xs[i := (xs ! i)\<lparr>cols := d\<rparr>])" by simp
next
  fix j assume "j < length (map (\<lambda>x. if row_id x = row_id (xs ! i) then x\<lparr>cols := d\<rparr> else x) xs)"
  then have j: "j < length xs" by simp
  have "row_id (xs ! j) = row_id (xs ! i) \<longleftrightarrow> j = i"
    using assms j by (metis distinct_conv_nth length_map nth_map)
  then show "map (\<lambda>x. if row_id x = row_id (xs ! i) then x\<lparr>cols := d\<rparr> else x) xs ! j
          = xs[i := (xs ! i)\<lparr>cols := d\<rparr>] ! j"
    using j by (auto simp: nth_list_update)
qed

lemma map_row_id_update:
  "map row_id (map (\<lambda>x. if row_id x = k then x\<lparr>cols := d\<rparr> else x) xs) = map row_id xs"
  by (induction xs) auto

lemma find_None_iff_names: "find (\<lambda>r. name (cols r) = n) xs = None \<longleftrightarrow> (\<forall>r\<in>set xs. name (cols r) \<noteq> n)"
  by (auto simp: find_None_iff)

text \<open>One turn of the loop, on a well-formed table with no fault.\<close>

lemma process_country_ok:
  fixes env rs c w
  defines "d \<equiv> countryData c rs (math_random env (draws w))"
  assumes f: "fault env (length (trace w)) = None" "fault env (Suc (length (trace w))) = None"
    and ok: "store_ok w"
  shows "\<exists>w'. process_country env rs c w = (Inr (), w') \<and> store_ok w'
      \<and> length (trace w') = length (trace w) + 2
      \<and> ((\<exists>r\<in>set (rows w). name (cols r) = countryName c) \<longrightarrow>
           (\<exists>i<length (rows w). name (cols (rows w ! i)) = countryName c
              \<and> (\<forall>j<i. name (cols (rows w ! j)) \<noteq> countryName c)
              \<and> rows w' = (rows w)[i := (rows w ! i)\<lparr>cols := d\<rparr>])
           \<and> next_id w' = next_id w)
      \<and> ((\<forall>r\<in>set (rows w). name (cols r) \<noteq> countryName c) \<longrightarrow>
           rows w' = rows w @ [\<lparr>row_id = next_id w, cols = d\<rparr>] \<and> next_id w' = Suc (next_id w))"
proof (cases "find (\<lambda>r. name (cols r) = name d) (rows w)")
  case None
  have nd: "name d = countryName c" by (simp add: d_def name_countryData)
  from None have no: "\<forall>r\<in>set (rows w). name (cols r) \<noteq> countryName c"
    by (simp add: find_None_iff_names nd)
  let ?w = "w\<lparr>rows := rows w @ [\<lparr>row_id = next_id w, cols = d\<rparr>],
              next_id := Suc (next_id w),
              draws := draws_after c rs w,
              trace := trace w @ [FindOne (name d), Save (name d)]\<rparr>"
  have "process_country env rs c w = (Inr (), ?w)"
    by (rule process_country_new[OF f _ None]) (simp add: d_def)
  moreover have "store_ok ?w" using ok by (auto simp: store_ok_def less_Suc_eq)
  ultimately show ?thesis using no by auto
next
  case (Some r)
  have nd: "name d = countryName c" by (simp add: d_def name_countryData)
  from find_first_index[OF Some] obtain i where i: "i < length (rows w)" "rows w ! i = r"
    "name (cols r) = name d" "\<forall>j<i. name (cols (rows w ! j)) \<noteq> name d" by blast
  let ?rows = "map (\<lambda>x. if row_id x = row_id r then x\<lparr>cols := d\<rparr> else x) (rows w)"
  let ?w = "w\<lparr>rows := ?rows, draws := draws_after c rs w,
              trace := trace w @ [FindOne (name d), Update (row_id r)]\<rparr>"
  have run: "process_country env rs c w = (Inr (), ?w)"
    by (rule process_country_found[OF f _ Some]) (simp add: d_def)
  have dist: "distinct (map row_id (rows w))" using ok by (simp add: store_ok_def)
  have upd: "?rows = (rows w)[i := (rows w ! i)\<lparr>cols := d\<rparr>]"
    using update_by_id_is_list_update[OF dist i(1), of d] i(2) by simp
  have d2: "distinct (map row_id ?rows)"
    using dist by (simp only: map_row_id_update)
  have "\<forall>x\<in>set ?rows. row_id x < next_id w"
    using ok by (auto simp: store_ok_def)
  with d2 have "store_ok ?w" by (simp add: store_ok_def)
  moreover have ex: "\<exists>r\<in>set (rows w). name (cols r) = countryName c"
    using i nd nth_mem[OF i(1)] by auto
  moreover have "\<exists>i<length (rows w). name (cols (rows w ! i)) = countryName c
              \<and> (\<forall>j<i. name (cols (rows w ! j)) \<noteq> countryName c)
              \<and> rows ?w = (rows w)[i := (rows w ! i)\<lparr>cols := d\<rparr>]"
    using i upd nd by (intro exI[of _ i]) simp
  moreover have "length (trace ?w) = length (trace w) + 2" "next_id ?w = next_id w" by simp_all
  ultimately show ?thesis using run by blast
qed


lemma quiet_later: "quiet env k \<Longrightarrow> k \<le> k' \<Longrightarrow> quiet env k'"
  by (simp add: quiet_def)

lemma quiet_here: "quiet env k \<Longrightarrow> fault env k = None \<and> fault env (Suc k) = None"
  by (simp add: quiet_def)

lemma names_list_update:
  assumes "i < length (rows w)" "name (cols (rows w ! i)) = name d"
  shows "map (\<lambda>r. name (cols r)) ((rows w)[i := (rows w ! i)\<lparr>cols := d\<rparr>]) = names w"
  using assms by (auto simp: names_def map_update list_update_same_conv)

lemma process_country_names:
  assumes q: "quiet env (length (trace w))" and ok: "store_ok w"
  shows "\<exists>w'. process_country env rs c w = (Inr (), w') \<and> store_ok w'
           \<and> quiet env (length (trace w')) \<and> names w' = add_name (names w) (countryName c)"
proof -
  let ?d = "countryData c rs (math_random env (draws w))"
  have f: "fault env (length (trace w)) = None" "fault env (Suc (length (trace w))) = None"
    using quiet_here[OF q] by simp_all
  from process_country_ok[OF f ok, of rs c] obtain w' where
    run: "process_country env rs c w = (Inr (), w')" and ok': "store_ok w'"
    and tr: "length (trace w') = length (trace w) + 2"
    and found: "(\<exists>r\<in>set (rows w). name (cols r) = countryName c) \<longrightarrow>
           (\<exists>i<length (rows w). name (cols (rows w ! i)) = countryName c
              \<and> (\<forall>j<i. name (cols (rows w ! j)) \<noteq> countryName c)
              \<and> rows w' = (rows w)[i := (rows w ! i)\<lparr>cols := ?d\<rparr>])
           \<and> next_id w' = next_id w"
    and new: "(\<forall>r\<in>set (rows w). name (cols r) \<noteq> countryName c) \<longrightarrow>
           rows w' = rows w @ [\<lparr>row_id = next_id w, cols = ?d\<rparr>] \<and> next_id w' = Suc (next_id w)"
    by blast
  have q': "quiet env (length (trace w'))" using quiet_later[OF q] tr by simp
  have "names w' = add_name (names w) (countryName c)"
  proof (cases "\<exists>r\<in>set (rows w). name (cols r) = countryName c")
    case True
    with found obtain i where i: "i < length (rows w)" "name (cols (rows w ! i)) = countryName c"
      "rows w' = (rows w)[i := (rows w ! i)\<lparr>cols := ?d\<rparr>]" by blast
    have "names w' = names w"
      using names_list_update[OF i(1), of ?d] i(2,3) by (simp add: names_def name_countryData)
    moreover have "countryName c \<in> set (names w)" using True by (force simp: names_def)
    ultimately show ?thesis by (simp add: add_name_def)
  next
    case False
    with new have "rows w' = rows w @ [\<lparr>row_id = next_id w, cols = ?d\<rparr>]" by blast
    then have "names w' = names w @ [countryName c]" by (simp add: names_def name_countryData)
    moreover have "countryName c \<notin> set (names w)" using False by (force simp: names_def)
    ultimately show ?thesis by (simp add: add_name_def)
  qed
  with run ok' q' show ?thesis by blast
qed

lemma process_countries_names:
  assumes "quiet env (length (trace w))" "store_ok w"
  shows "\<exists>w'. process_countries env rs cs w = (Inr (), w') \<and> store_ok w'
           \<and> quiet env (length (trace w'))
           \<and> names w' = foldl add_name (names w) (map countryName cs)"
  using assms
proof (induction cs arbitrary: w)
  case Nil
  then show ?case by simp
next
  case (Cons c cs)
  from process_country_names[OF Cons.prems, of rs c] obtain w1 where
    s: "process_country env rs c w = (Inr (), w1)" "store_ok w1" "quiet env (length (trace w1))"
       "names w1 = add_name (names w) (countryName c)" by blast
  from Cons.IH[OF s(3) s(2)] obtain w' where
    r: "process_countries env rs cs w1 = (Inr (), w')" "store_ok w'" "quiet env (length (trace w'))"
       "names w' = foldl add_name (names w1) (map countryName cs)" by blast
  show ?case using s r by simp
qed

lemma set_foldl_add_name: "set (foldl add_name ns xs) = set ns \<union> set xs"
  by (induction xs arbitrary: ns) (auto simp: add_name_def)

lemma count_add_name:
  "count_list (add_name ns x) n = (if x = n \<and> n \<notin> set ns then 1 else count_list ns n)"
  by (auto simp: add_name_def count_list_0_iff)

lemma count_foldl_add_name:
  "count_list (foldl add_name ns xs) n =
     (if n \<in> set xs then max 1 (count_list ns n) else count_list ns n)"
proof (induction xs arbitrary: ns)
  case Nil
  then show ?case by simp
next
  case (Cons x xs)
  have pos: "n \<in> set ns \<Longrightarrow> 0 < count_list ns n" for ns :: "string list"
    by (simp add: count_list_0_iff zero_less_iff_neq_zero)
  show ?case
    unfolding foldl_Cons Cons.IH count_add_name
    using pos[of ns] by (auto simp: count_list_0_iff max_def)
qed

lemma countryName_nonempty: "countryName c \<noteq> []"
  by (auto simp: countryName_def or_default_def split: option.splits)

lemma countryName_nameless: "c_name c = None \<or> c_name c = Some [] \<Longrightarrow> countryName c = ''Unknown''"
  by (auto simp: countryName_def or_default_def)


lemma refresh_fetched:
  assumes "countries_api env = Inr cs" "rates_api env = Inr dr"
  shows "refreshCountriesandSave env w = process_and_summarise env (rates_of dr) cs (fetched w)"
  using assms by (simp add: refreshCountriesandSave_def Let_def fetched_def rates_of_def)

lemma generateSummaryImage_never_throws: "fst (generateSummaryImage env w) = Inr ()"
  by (simp add: generateSummaryImage_def split: prod.splits sum.splits)


text \<open>
  C4: when the fetch of the country list fails, the refresh fails with the
  \<^verbatim>\<open>ExternalAPIError\<close> of the Countries API and the world is as before but for the one
  fetch in the trace: the exchange-rate fetch is not attempted and the table is not
  touched. When the country fetch succeeds and the exchange-rate fetch fails, the refresh
  fails with the \<^verbatim>\<open>ExternalAPIError\<close> of the Exchange Rate API, the trace holds the two
  fetches in that order, and nothing else has changed: no record was transformed (no
  random number drawn) and none written.
\<close>

theorem fetch_failure_aborts:
  "(countries_api env = Inl m \<longrightarrow>
      refreshCountriesandSave env w =
        (Inl (ExternalAPIError ''Could not fetch data from Countries API''),
         w\<lparr>trace := trace w @ [HttpGet CountriesAPI]\<rparr>))
   \<and> (countries_api env = Inr cs \<and> rates_api env = Inl m \<longrightarrow>
      refreshCountriesandSave env w =
        (Inl (ExternalAPIError ''Could not fetch data from Exchange Rate API''),
         w\<lparr>trace := trace w @ [HttpGet CountriesAPI, HttpGet ExchangeRateAPI]\<rparr>))"
  by (simp add: refreshCountriesandSave_def Let_def)

text \<open>
  The theorem at a country fetch that times out, and at an exchange-rate fetch answered
  with status 500.
\<close>

theorem fetch_failure_aborts_witness:
  "refreshCountriesandSave (calm\<lparr>countries_api := Inl ''timeout of 10000ms exceeded''\<rparr>) empty_world
     = (Inl (ExternalAPIError ''Could not fetch data from Countries API''),
        \<lparr>rows = [], next_id = 1, cache = None, draws = 0, trace = [HttpGet CountriesAPI]\<rparr>)
   \<and> refreshCountriesandSave (calm\<lparr>rates_api := Inl ''Request failed with status code 500''\<rparr>) empty_world
     = (Inl (ExternalAPIError ''Could not fetch data from Exchange Rate API''),
        \<lparr>rows = [], next_id = 1, cache = None, draws = 0,
         trace = [HttpGet CountriesAPI, HttpGet ExchangeRateAPI]\<rparr>)"
proof -
  let ?e1 = "calm\<lparr>countries_api := Inl ''timeout of 10000ms exceeded''\<rparr>"
  let ?e2 = "calm\<lparr>rates_api := Inl ''Request failed with status code 500''\<rparr>"
  have a: "countries_api ?e1 = Inl ''timeout of 10000ms exceeded''" by simp
  have b: "countries_api ?e2 = Inr [wakanda, testland]
            \<and> rates_api ?e2 = Inl ''Request failed with status code 500''"
    by (simp add: calm_def)
  from fetch_failure_aborts[of ?e1 "''timeout of 10000ms exceeded''" empty_world] a
  have "refreshCountriesandSave ?e1 empty_world =
        (Inl (ExternalAPIError ''Could not fetch data from Countries API''),
         empty_world\<lparr>trace := trace empty_world @ [HttpGet CountriesAPI]\<rparr>)" by blast
  moreover
  from fetch_failure_aborts[of ?e2 "''Request failed with status code 500''" empty_world
         "[wakanda, testland]"] b
  have "refreshCountriesandSave ?e2 empty_world =
        (Inl (ExternalAPIError ''Could not fetch data from Exchange Rate API''),
         empty_world\<lparr>trace := trace empty_world @ [HttpGet CountriesAPI, HttpGet ExchangeRateAPI]\<rparr>)"
    by blast
  ultimately show ?thesis by (simp add: empty_world_def)
qed

text \<open>
  C6: \<^verbatim>\<open>generateSummaryImage\<close> never throws; and when both fetches succeed and every
  record is written, the refresh calls it and succeeds, whatever happened inside it.
\<close>

theorem summary_failure_is_swallowed:
  "fst (generateSummaryImage env w) = Inr ()
   \<and> (countries_api env = Inr cs \<and> rates_api env = Inr dr
        \<and> process_countries env (rates_of dr) cs (fetched w) = (Inr (), w3) \<longrightarrow>
      refreshCountriesandSave env w = (Inr (), snd (generateSummaryImage env w3)))"
proof (intro conjI impI)
  show "fst (generateSummaryImage env w) = Inr ()" by (rule generateSummaryImage_never_throws)
next
  assume h: "countries_api env = Inr cs \<and> rates_api env = Inr dr
        \<and> process_countries env (rates_of dr) cs (fetched w) = (Inr (), w3)"
  obtain r w4 where g: "generateSummaryImage env w3 = (r, w4)" by (cases "generateSummaryImage env w3")
  with generateSummaryImage_never_throws[of env w3] have "r = Inr ()" by simp
  with g h show "refreshCountriesandSave env w = (Inr (), snd (generateSummaryImage env w3))"
    by (simp add: refresh_fetched process_and_summarise_def)
qed

text \<open>
  The theorem where the writing of the image throws: the body of the \<^verbatim>\<open>try\<close> fails,
  the refresh succeeds, both records are in the table and no image is cached.
\<close>

theorem summary_failure_is_swallowed_witness:
  "fst (generateSummaryImage_try disk_full
          (snd (process_countries disk_full [''USD'' \<mapsto> 2] [wakanda, testland] (fetched empty_world))))
     = Inl (Error ''ENOSPC: no space left on device'')
   \<and> fst (refreshCountriesandSave disk_full empty_world) = Inr ()
   \<and> cache (snd (refreshCountriesandSave disk_full empty_world)) = None
   \<and> names (snd (refreshCountriesandSave disk_full empty_world)) = [''Wakanda'', ''Testland'']"
proof -
  let ?rs = "[''USD'' \<mapsto> 2 :: rat]"
  let ?w3 = "snd (process_countries disk_full ?rs [wakanda, testland] (fetched empty_world))"
  have a: "countries_api disk_full = Inr [wakanda, testland]"
    and b: "rates_api disk_full = Inr (Some ?rs)"
    by (simp_all add: disk_full_def calm_def)
  have r: "rates_of (Some ?rs) = ?rs" by (simp add: rates_of_def)
  have "fst (process_countries disk_full ?rs [wakanda, testland] (fetched empty_world)) = Inr ()"
    by code_simp
  then have c: "process_countries disk_full (rates_of (Some ?rs)) [wakanda, testland] (fetched empty_world)
                 = (Inr (), ?w3)"
    unfolding r by (metis prod.collapse)
  from summary_failure_is_swallowed[of disk_full empty_world "[wakanda, testland]" "Some ?rs" ?w3] a b c
  have run: "refreshCountriesandSave disk_full empty_world = (Inr (), snd (generateSummaryImage disk_full ?w3))"
    by blast
  have t: "fst (generateSummaryImage_try disk_full ?w3) = Inl (Error ''ENOSPC: no space left on device'')"
    by code_simp
  have k: "cache (snd (generateSummaryImage disk_full ?w3)) = None" by code_simp
  have n: "names (snd (generateSummaryImage disk_full ?w3)) = [''Wakanda'', ''Testland'']" by code_simp
  show ?thesis using run t k n by simp
qed

text \<open>
  C5: when the records at positions \<open>0..i-1\<close> have been processed and, for the record at
  position \<open>i\<close>, the lookup succeeds and the write (update or insert) throws with message
  \<open>m\<close>, the refresh fails with the error
  \<^verbatim>\<open>Failed to save countries to database: \<close>\<open>m\<close>; the table is the one the first \<open>i\<close>
  records left, and the failed write is the last effect of the trace: no later record is
  processed and no summary is generated.
\<close>

theorem write_failure_aborts:
  assumes api: "countries_api env = Inr cs" "rates_api env = Inr dr"
    and i: "i < length cs"
    and before: "process_countries env (rates_of dr) (take i cs) (fetched w) = (Inr (), wi)"
    and f: "fault env (length (trace wi)) = None" "fault env (Suc (length (trace wi))) = Some m"
  shows "\<exists>wf. refreshCountriesandSave env w =
              (Inl (Error (''Failed to save countries to database: '' @ m)), wf)
            \<and> rows wf = rows wi \<and> next_id wf = next_id wi \<and> cache wf = cache wi
            \<and> (\<exists>ev. trace wf = trace wi @ [FindOne (countryName (cs ! i)), ev]
                  \<and> (ev = Save (countryName (cs ! i)) \<or> (\<exists>k. ev = Update k)))"
proof -
  let ?rs = "rates_of dr"
  define d where "d = countryData (cs ! i) ?rs (math_random env (draws wi))"
  define ev where "ev = (case find (\<lambda>r. name (cols r) = name d) (rows wi) of
            Some r \<Rightarrow> Update (row_id r) | None \<Rightarrow> Save (name d))"
  define wf where "wf = wi\<lparr>draws := draws_after (cs ! i) ?rs wi, trace := trace wi @ [FindOne (name d), ev]\<rparr>"
  have nd: "name d = countryName (cs ! i)" by (simp add: d_def name_countryData)
  have step: "process_country env ?rs (cs ! i) wi = (Inl (Error m), wf)"
    unfolding wf_def ev_def by (rule process_country_write_fails[OF f d_def])
  have split: "cs = take i cs @ (cs ! i) # drop (Suc i) cs"
    using i by (simp add: id_take_nth_drop)
  have "process_countries env ?rs cs (fetched w) = (Inl (Error m), wf)"
    by (subst split, simp add: process_countries_append before step)
  then have "refreshCountriesandSave env w =
      (Inl (Error (''Failed to save countries to database: '' @ m)), wf)"
    using api by (simp add: refresh_fetched process_and_summarise_def save_failed_def message_def)
  moreover have "ev = Save (countryName (cs ! i)) \<or> (\<exists>k. ev = Update k)"
    by (auto simp: ev_def nd split: option.splits)
  ultimately show ?thesis by (auto simp: wf_def nd)
qed

text \<open>
  The theorem where the insertion of the second record throws: the refresh fails, and the
  first record stays in the table.
\<close>

theorem write_failure_aborts_witness:
  "fst (refreshCountriesandSave deadlock empty_world)
     = Inl (Error ''Failed to save countries to database: ER_LOCK_DEADLOCK'')
   \<and> names (snd (refreshCountriesandSave deadlock empty_world)) = [''Wakanda'']
   \<and> cache (snd (refreshCountriesandSave deadlock empty_world)) = None"
proof -
  let ?rs = "[''USD'' \<mapsto> 2 :: rat]"
  let ?wi = "snd (process_countries deadlock ?rs (take 1 [wakanda, testland]) (fetched empty_world))"
  have a: "countries_api deadlock = Inr [wakanda, testland]"
    and b: "rates_api deadlock = Inr (Some ?rs)"
    by (simp_all add: deadlock_def calm_def)
  have r: "rates_of (Some ?rs) = ?rs" by (simp add: rates_of_def)
  have i: "(1::nat) < length [wakanda, testland]" by simp
  have "fst (process_countries deadlock ?rs (take 1 [wakanda, testland]) (fetched empty_world)) = Inr ()"
    by code_simp
  then have c: "process_countries deadlock (rates_of (Some ?rs)) (take 1 [wakanda, testland])
                  (fetched empty_world) = (Inr (), ?wi)"
    unfolding r by (metis prod.collapse)
  have l: "length (trace ?wi) = 4" by code_simp
  have f: "fault deadlock (length (trace ?wi)) = None" "fault deadlock (Suc (length (trace ?wi))) = Some ''ER_LOCK_DEADLOCK''"
    unfolding l by (simp_all add: deadlock_def)
  from write_failure_aborts[OF a b i c f] obtain wf where
    run: "refreshCountriesandSave deadlock empty_world =
              (Inl (Error (''Failed to save countries to database: '' @ ''ER_LOCK_DEADLOCK'')), wf)"
    and rw: "rows wf = rows ?wi" and cw: "cache wf = cache ?wi" by blast
  have n: "names ?wi = [''Wakanda'']" by code_simp
  have k: "cache ?wi = None" by code_simp
  have "names wf = names ?wi" using rw by (simp add: names_def)
  then show ?thesis using run n k cw by simp
qed


text \<open>
  C3: one turn of the loop, with no fault, on a well-formed table. When a row has exactly
  the name of the record, the first such row gets the new columns in place: the table keeps
  its length and its keys, and no key is handed out. When no row has exactly that name, a
  row is appended under the next key. Consequently two records whose names differ, though
  only in letter case, neither of them in the table, end up as two rows.
\<close>

theorem upsert_by_exact_name:
  fixes env :: env and rs :: rates and c c2 :: raw_country and w :: world
  defines "d \<equiv> countryData c rs (math_random env (draws w))"
  defines "k \<equiv> length (trace w)"
  assumes f: "fault env k = None" "fault env (Suc k) = None"
    and ok: "store_ok w"
  shows "(\<exists>w'. process_country env rs c w = (Inr (), w') \<and>
           ((\<exists>r\<in>set (rows w). name (cols r) = countryName c) \<longrightarrow>
              (\<exists>i<length (rows w). name (cols (rows w ! i)) = countryName c
                 \<and> (\<forall>j<i. name (cols (rows w ! j)) \<noteq> countryName c)
                 \<and> rows w' = (rows w)[i := (rows w ! i)\<lparr>cols := d\<rparr>])
              \<and> length (rows w') = length (rows w)
              \<and> map row_id (rows w') = map row_id (rows w)
              \<and> next_id w' = next_id w)
         \<and> ((\<forall>r\<in>set (rows w). name (cols r) \<noteq> countryName c) \<longrightarrow>
              rows w' = rows w @ [\<lparr>row_id = next_id w, cols = d\<rparr>]))
       \<and> (fault env (k + 2) = None \<and> fault env (k + 3) = None
           \<and> countryName c \<noteq> countryName c2
           \<and> toLowerCase (countryName c) = toLowerCase (countryName c2)
           \<and> countryName c \<notin> set (names w) \<and> countryName c2 \<notin> set (names w) \<longrightarrow>
           (\<exists>w''. process_countries env rs [c, c2] w = (Inr (), w'')
               \<and> names w'' = names w @ [countryName c, countryName c2]
               \<and> map row_id (rows w'') = map row_id (rows w) @ [next_id w, Suc (next_id w)]))"
proof -
  from process_country_ok[OF f[unfolded k_def] ok, of rs c] obtain w' where
    run: "process_country env rs c w = (Inr (), w')" and ok': "store_ok w'"
    and tr: "length (trace w') = length (trace w) + 2"
    and found: "(\<exists>r\<in>set (rows w). name (cols r) = countryName c) \<longrightarrow>
           (\<exists>i<length (rows w). name (cols (rows w ! i)) = countryName c
              \<and> (\<forall>j<i. name (cols (rows w ! j)) \<noteq> countryName c)
              \<and> rows w' = (rows w)[i := (rows w ! i)\<lparr>cols := d\<rparr>])
           \<and> next_id w' = next_id w"
    and new: "(\<forall>r\<in>set (rows w). name (cols r) \<noteq> countryName c) \<longrightarrow>
           rows w' = rows w @ [\<lparr>row_id = next_id w, cols = d\<rparr>] \<and> next_id w' = Suc (next_id w)"
    unfolding d_def by blast
  have same: "length (rows w') = length (rows w) \<and> map row_id (rows w') = map row_id (rows w)"
    if "\<exists>r\<in>set (rows w). name (cols r) = countryName c"
  proof -
    from found that obtain i where i: "i < length (rows w)"
      "rows w' = (rows w)[i := (rows w ! i)\<lparr>cols := d\<rparr>]" by blast
    have "map row_id ((rows w)[i := (rows w ! i)\<lparr>cols := d\<rparr>]) = map row_id (rows w)"
      using i(1) by (simp add: map_update list_update_same_conv)
    with i show ?thesis by simp
  qed
  have A: "\<exists>w'. process_country env rs c w = (Inr (), w') \<and>
           ((\<exists>r\<in>set (rows w). name (cols r) = countryName c) \<longrightarrow>
              (\<exists>i<length (rows w). name (cols (rows w ! i)) = countryName c
                 \<and> (\<forall>j<i. name (cols (rows w ! j)) \<noteq> countryName c)
                 \<and> rows w' = (rows w)[i := (rows w ! i)\<lparr>cols := d\<rparr>])
              \<and> length (rows w') = length (rows w)
              \<and> map row_id (rows w') = map row_id (rows w)
              \<and> next_id w' = next_id w)
         \<and> ((\<forall>r\<in>set (rows w). name (cols r) \<noteq> countryName c) \<longrightarrow>
              rows w' = rows w @ [\<lparr>row_id = next_id w, cols = d\<rparr>])"
    using run found new same by blast
  have B: "\<exists>w''. process_countries env rs [c, c2] w = (Inr (), w'')
               \<and> names w'' = names w @ [countryName c, countryName c2]
               \<and> map row_id (rows w'') = map row_id (rows w) @ [next_id w, Suc (next_id w)]"
    if h: "fault env (k + 2) = None \<and> fault env (k + 3) = None
           \<and> countryName c \<noteq> countryName c2
           \<and> toLowerCase (countryName c) = toLowerCase (countryName c2)
           \<and> countryName c \<notin> set (names w) \<and> countryName c2 \<notin> set (names w)"
  proof -
    from h have "\<forall>r\<in>set (rows w). name (cols r) \<noteq> countryName c" by (force simp: names_def)
    with new have r1: "rows w' = rows w @ [\<lparr>row_id = next_id w, cols = d\<rparr>]"
      and n1: "next_id w' = Suc (next_id w)" by blast+
    have f2: "fault env (length (trace w')) = None" "fault env (Suc (length (trace w'))) = None"
      using h tr by (simp_all add: k_def numeral_3_eq_3)
    let ?d2 = "countryData c2 rs (math_random env (draws w'))"
    have no2: "\<forall>r\<in>set (rows w'). name (cols r) \<noteq> countryName c2"
      using h unfolding r1 d_def by (force simp: names_def name_countryData)
    from process_country_ok[OF f2 ok', of rs c2] no2 obtain w'' where
      run2: "process_country env rs c2 w' = (Inr (), w'')"
      and r2: "rows w'' = rows w' @ [\<lparr>row_id = next_id w', cols = ?d2\<rparr>]" by blast
    have "process_countries env rs [c, c2] w = (Inr (), w'')" using run run2 by simp
    moreover have "names w'' = names w @ [countryName c, countryName c2]"
      unfolding names_def r2 r1 d_def by (simp add: name_countryData)
    moreover have "map row_id (rows w'') = map row_id (rows w) @ [next_id w, Suc (next_id w)]"
      unfolding r2 r1 n1 by simp
    ultimately show ?thesis by blast
  qed
  from A B show ?thesis by blast
qed

text \<open>
  The theorem at \<open>france\<close>: processed into the empty table it is inserted under key 1,
  processed once more it is updated under the same key, and \<open>FRANCE\<close> after \<open>France\<close>
  gives two rows.
\<close>

theorem upsert_by_exact_name_witness:
  "map row_id (rows (snd (process_country calm [''EUR'' \<mapsto> 1] france
        (snd (process_country calm [''EUR'' \<mapsto> 1] france empty_world))))) = [1]
   \<and> rows (snd (process_country calm [''EUR'' \<mapsto> 1] france empty_world))
       = [\<lparr>row_id = 1, cols = countryData france [''EUR'' \<mapsto> 1] (1 / 4)\<rparr>]
   \<and> names (snd (process_countries calm [''EUR'' \<mapsto> 1] [france, france_upper] empty_world))
       = [''France'', ''FRANCE'']"
proof -
  let ?rs = "[''EUR'' \<mapsto> 1 :: rat]"
  let ?w1 = "snd (process_country calm ?rs france empty_world)"
  have q: "fault calm j = None" for j by (simp add: calm_def)
  have ok0: "store_ok empty_world" by (simp add: store_ok_def empty_world_def)
  have ok1: "store_ok ?w1" by code_simp
  have found: "\<exists>r\<in>set (rows ?w1). name (cols r) = countryName france" by code_simp
  have new: "\<forall>r\<in>set (rows empty_world). name (cols r) \<noteq> countryName france"
    by (simp add: empty_world_def)
  have two: "fault calm (length (trace empty_world) + 2) = None
      \<and> fault calm (length (trace empty_world) + 3) = None
      \<and> countryName france \<noteq> countryName france_upper
      \<and> toLowerCase (countryName france) = toLowerCase (countryName france_upper)
      \<and> countryName france \<notin> set (names empty_world)
      \<and> countryName france_upper \<notin> set (names empty_world)"
    by code_simp
  from upsert_by_exact_name[OF q q ok1, of ?rs france] found
  obtain w' where "process_country calm ?rs france ?w1 = (Inr (), w')"
    "map row_id (rows w') = map row_id (rows ?w1)" by blast
  then have a: "map row_id (rows (snd (process_country calm ?rs france ?w1))) = map row_id (rows ?w1)"
    by simp
  from upsert_by_exact_name[OF q q ok0, of ?rs france france_upper] new two
  obtain v v' where "process_country calm ?rs france empty_world = (Inr (), v)"
    "rows v = rows empty_world @ [\<lparr>row_id = next_id empty_world,
        cols = countryData france ?rs (math_random calm (draws empty_world))\<rparr>]"
    "process_countries calm ?rs [france, france_upper] empty_world = (Inr (), v')"
    "names v' = names empty_world @ [countryName france, countryName france_upper]"
    by blast
  then have b: "rows ?w1 = rows empty_world @ [\<lparr>row_id = next_id empty_world,
        cols = countryData france ?rs (math_random calm (draws empty_world))\<rparr>]"
    and c: "names (snd (process_countries calm ?rs [france, france_upper] empty_world))
         = names empty_world @ [countryName france, countryName france_upper]"
    by simp_all
  have e: "map row_id (rows ?w1) = [1]" unfolding b by (simp add: empty_world_def)
  have n: "names empty_world @ [countryName france, countryName france_upper] = [''France'', ''FRANCE'']"
    by code_simp
  have r: "rows empty_world @ [\<lparr>row_id = next_id empty_world,
        cols = countryData france ?rs (math_random calm (draws empty_world))\<rparr>]
       = [\<lparr>row_id = 1, cols = countryData france ?rs (1 / 4)\<rparr>]"
    by (simp add: empty_world_def calm_def)
  show ?thesis using a b c e n r by simp
qed

text \<open>
  C10: a record whose name is missing or empty is stored under the name \<^verbatim>\<open>Unknown\<close>, and
  no record is stored under an empty name. A refresh with no fault on a well-formed table
  leaves no row with an empty name if there was none, and leaves as many rows named
  \<^verbatim>\<open>Unknown\<close> as there were, or one if there was none and a record of the source goes
  by that name: all such records go to one row. Each of them overwrites it: when a row
  named \<^verbatim>\<open>Unknown\<close> is there, a nameless record replaces the columns of the first such
  row.
\<close>

theorem nameless_records_share_one_row:
  fixes env :: env and rs :: rates and cs :: "raw_country list" and c :: raw_country and w :: world
  assumes q: "quiet env (length (trace w))" and ok: "store_ok w"
  shows "(c_name c = None \<or> c_name c = Some [] \<longrightarrow> name (countryData c rs u) = ''Unknown'')
       \<and> name (countryData c rs u) \<noteq> []
       \<and> (\<exists>w'. process_countries env rs cs w = (Inr (), w')
             \<and> ((\<forall>n\<in>set (names w). n \<noteq> []) \<longrightarrow> (\<forall>n\<in>set (names w'). n \<noteq> []))
             \<and> count_list (names w') ''Unknown''
                 = (if \<exists>x\<in>set cs. countryName x = ''Unknown''
                    then max 1 (count_list (names w) ''Unknown'')
                    else count_list (names w) ''Unknown''))
       \<and> ((c_name c = None \<or> c_name c = Some []) \<and> ''Unknown'' \<in> set (names w) \<longrightarrow>
             (\<exists>w' i. process_country env rs c w = (Inr (), w') \<and> i < length (rows w)
                \<and> name (cols (rows w ! i)) = ''Unknown''
                \<and> (\<forall>j<i. name (cols (rows w ! j)) \<noteq> ''Unknown'')
                \<and> rows w' = (rows w)[i := (rows w ! i)\<lparr>cols := countryData c rs (math_random env (draws w))\<rparr>]))"
proof (intro conjI impI)
  assume "c_name c = None \<or> c_name c = Some []"
  then show "name (countryData c rs u) = ''Unknown''"
    by (simp add: name_countryData countryName_nameless)
next
  show "name (countryData c rs u) \<noteq> []" by (simp add: name_countryData countryName_nonempty)
next
  from process_countries_names[OF q ok, of rs cs] obtain w' where
    run: "process_countries env rs cs w = (Inr (), w')"
    and nm: "names w' = foldl add_name (names w) (map countryName cs)" by blast
  have "(\<forall>n\<in>set (names w). n \<noteq> []) \<longrightarrow> (\<forall>n\<in>set (names w'). n \<noteq> [])"
    unfolding nm set_foldl_add_name using countryName_nonempty by (metis UnE imageE list.set_map)
  moreover have "count_list (names w') ''Unknown''
                 = (if \<exists>x\<in>set cs. countryName x = ''Unknown''
                    then max 1 (count_list (names w) ''Unknown'')
                    else count_list (names w) ''Unknown'')"
    unfolding nm count_foldl_add_name by (auto simp: image_iff)
  ultimately show "\<exists>w'. process_countries env rs cs w = (Inr (), w')
             \<and> ((\<forall>n\<in>set (names w). n \<noteq> []) \<longrightarrow> (\<forall>n\<in>set (names w'). n \<noteq> []))
             \<and> count_list (names w') ''Unknown''
                 = (if \<exists>x\<in>set cs. countryName x = ''Unknown''
                    then max 1 (count_list (names w) ''Unknown'')
                    else count_list (names w) ''Unknown'')"
    using run by blast
next
  assume h: "(c_name c = None \<or> c_name c = Some []) \<and> ''Unknown'' \<in> set (names w)"
  then have cn: "countryName c = ''Unknown''" by (simp add: countryName_nameless)
  from h have ex: "\<exists>r\<in>set (rows w). name (cols r) = countryName c"
    unfolding cn by (auto simp: names_def)
  have f: "fault env (length (trace w)) = None" "fault env (Suc (length (trace w))) = None"
    using quiet_here[OF q] by simp_all
  from process_country_ok[OF f ok, of rs c] ex
  show "\<exists>w' i. process_country env rs c w = (Inr (), w') \<and> i < length (rows w)
                \<and> name (cols (rows w ! i)) = ''Unknown''
                \<and> (\<forall>j<i. name (cols (rows w ! j)) \<noteq> ''Unknown'')
                \<and> rows w' = (rows w)[i := (rows w ! i)\<lparr>cols := countryData c rs (math_random env (draws w))\<rparr>]"
    unfolding cn by blast
qed

text \<open>
  The theorem at a source of three records, the first and the last of them nameless: one
  row named \<^verbatim>\<open>Unknown\<close> results, and the last record is written over it, the table
  keeping its two rows.
\<close>

theorem nameless_records_share_one_row_witness:
  "name (countryData nameless_a Map.empty 0) = ''Unknown''
   \<and> name (countryData nameless_b Map.empty 0) = ''Unknown''
   \<and> count_list (names (snd (process_countries calm Map.empty [nameless_a, testland, nameless_b]
         empty_world))) ''Unknown'' = 1
   \<and> length (rows (snd (process_country calm Map.empty nameless_b
         (snd (process_countries calm Map.empty [nameless_a, testland] empty_world))))) = 2"
proof -
  let ?cs = "[nameless_a, testland, nameless_b]"
  let ?wa = "snd (process_countries calm Map.empty [nameless_a, testland] empty_world)"
  have q: "quiet calm j" for j by (simp add: quiet_def calm_def)
  have ok0: "store_ok empty_world" by (simp add: store_ok_def empty_world_def)
  have oka: "store_ok ?wa" by code_simp
  have na: "c_name nameless_a = None \<or> c_name nameless_a = Some []" by (simp add: nameless_a_def)
  have nb: "c_name nameless_b = None \<or> c_name nameless_b = Some []" by (simp add: nameless_b_def)
  have ex: "\<exists>x\<in>set ?cs. countryName x = ''Unknown''" by code_simp
  have z: "count_list (names empty_world) ''Unknown'' = 0" by (simp add: names_def empty_world_def)
  have u: "''Unknown'' \<in> set (names ?wa)" by code_simp
  have l: "length (rows ?wa) = 2" by code_simp
  from nameless_records_share_one_row[OF q ok0, of nameless_a Map.empty 0 ?cs] na ex
  obtain w' where "name (countryData nameless_a Map.empty 0) = ''Unknown''"
    "process_countries calm Map.empty ?cs empty_world = (Inr (), w')"
    "count_list (names w') ''Unknown'' = max 1 (count_list (names empty_world) ''Unknown'')"
    by auto
  then have a: "name (countryData nameless_a Map.empty 0) = ''Unknown''"
    and b: "count_list (names (snd (process_countries calm Map.empty ?cs empty_world))) ''Unknown'' = 1"
    using z by simp_all
  from nameless_records_share_one_row[OF q oka, of nameless_b Map.empty 0] nb u
  obtain v i where "name (countryData nameless_b Map.empty 0) = ''Unknown''"
    "process_country calm Map.empty nameless_b ?wa = (Inr (), v)"
    "rows v = (rows ?wa)[i := (rows ?wa ! i)\<lparr>cols := countryData nameless_b Map.empty
                 (math_random calm (draws ?wa))\<rparr>]"
    by blast
  then have c: "name (countryData nameless_b Map.empty 0) = ''Unknown''"
    and d: "length (rows (snd (process_country calm Map.empty nameless_b ?wa))) = length (rows ?wa)"
    by simp_all
  show ?thesis using a b c d l by simp
qed

section \<open>The stored population\<close>

lemma stored_row:
  fixes env rs c w
  defines "d \<equiv> countryData c rs (math_random env (draws w))"
  assumes f: "fault env (length (trace w)) = None" "fault env (Suc (length (trace w))) = None"
  shows "fst (process_country env rs c w) = Inr ()
       \<and> (\<exists>r\<in>set (rows (snd (process_country env rs c w))). cols r = d)"
proof (cases "find (\<lambda>r. name (cols r) = name d) (rows w)")
  case None
  have "process_country env rs c w =
    (Inr (), w\<lparr>rows := rows w @ [\<lparr>row_id = next_id w, cols = d\<rparr>],
              next_id := Suc (next_id w),
              draws := draws_after c rs w,
              trace := trace w @ [FindOne (name d), Save (name d)]\<rparr>)"
    by (rule process_country_new[OF f _ None]) (simp add: d_def)
  then show ?thesis by simp
next
  case (Some r)
  have run: "process_country env rs c w =
    (Inr (), w\<lparr>rows := map (\<lambda>x. if row_id x = row_id r then x\<lparr>cols := d\<rparr> else x) (rows w),
              draws := draws_after c rs w,
              trace := trace w @ [FindOne (name d), Update (row_id r)]\<rparr>)"
    by (rule process_country_found[OF f _ Some]) (simp add: d_def)
  have rw: "rows (snd (process_country env rs c w))
              = map (\<lambda>x. if row_id x = row_id r then x\<lparr>cols := d\<rparr> else x) (rows w)"
    and ok: "fst (process_country env rs c w) = Inr ()"
    by (simp_all add: run)
  have "r \<in> set (rows w)" using Some by (auto simp: find_Some_iff)
  then have "r\<lparr>cols := d\<rparr> \<in> set (rows (snd (process_country env rs c w)))"
    unfolding rw by force
  moreover have "cols (r\<lparr>cols := d\<rparr>) = d" by simp
  ultimately show ?thesis using ok by blast
qed

lemma population_not_NaN: "population_of c \<noteq> NaN"
  by (simp add: population_of_def Let_def truthy_def)

text \<open>
  C9, as the spec states it, fails: the source value \<open>-5\<close> is written to the table as it
  is, and the string \<^verbatim>\<open>12abc\<close>, which is not a number, is written as 12.
\<close>

theorem population_not_as_stated:
  "population (countryData (testland\<lparr>c_population := JNum (- 5)\<rparr>) Map.empty (1 / 4)) = Num (- 5)
   \<and> rows (snd (process_country calm Map.empty (testland\<lparr>c_population := JNum (- 5)\<rparr>) empty_world))
       = [\<lparr>row_id = 1,
           cols = countryData (testland\<lparr>c_population := JNum (- 5)\<rparr>) Map.empty (1 / 4)\<rparr>]
   \<and> population (countryData (testland\<lparr>c_population := JStr ''12abc''\<rparr>) Map.empty (1 / 4)) = Num 12
   \<and> rows (snd (process_country calm Map.empty (testland\<lparr>c_population := JStr ''12abc''\<rparr>) empty_world))
       = [\<lparr>row_id = 1,
           cols = countryData (testland\<lparr>c_population := JStr ''12abc''\<rparr>) Map.empty (1 / 4)\<rparr>]"
  by code_simp

text \<open>
  C9 (amended): when neither the lookup nor the write throws, the record is written to the
  table with the population the transformer gave it. That population is an integer, or an
  infinity when the source is a string of too many digits. It equals the source value when
  that value is a non-negative integer below \<open>2\<^sup>3\<^sup>1\<close>, the values of the \<^verbatim>\<open>int\<close> column; it
  is 0 when the source value is missing, \<^verbatim>\<open>null\<close>, a boolean, or a string that does not
  begin (after white space and an optional sign) with a decimal digit; and it is negative
  only when the source value is a negative number or a string with a minus sign in front.
  Strings are of characters below \<open>U+0100\<close>.
\<close>

theorem stored_population:
  fixes env :: env and c :: raw_country and rs :: rates and w :: world
  defines "d \<equiv> countryData c rs (math_random env (draws w))"
  shows "(fault env (length (trace w)) = None \<and> fault env (Suc (length (trace w))) = None \<longrightarrow>
            fst (process_country env rs c w) = Inr ()
            \<and> (\<exists>r\<in>set (rows (snd (process_country env rs c w))).
                  name (cols r) = countryName c \<and> population (cols r) = population d))
       \<and> (population d = Infinity \<or> population d = NegInfinity
            \<or> (\<exists>k::int. population d = Num (of_int k)))
       \<and> (\<forall>n. c_population c = JNum (of_int n) \<and> 0 \<le> n \<and> n < 2147483648 \<longrightarrow>
            population d = Num (of_int n))
       \<and> (c_population c = JUndefined \<or> c_population c = JNull \<or> (\<exists>b. c_population c = JBool b)
            \<longrightarrow> population d = Num 0)
       \<and> (\<forall>s. c_population c = JStr s \<and> \<not> begins_with_digit s \<longrightarrow> population d = Num 0)
       \<and> (negative (population d) \<longrightarrow>
            (\<exists>x. c_population c = JNum x \<and> x < 0) \<or>
            (\<exists>s rest. c_population c = JStr s \<and> trim_start s = CHR ''-'' # rest))"
proof (intro conjI impI allI)
  assume f: "fault env (length (trace w)) = None \<and> fault env (Suc (length (trace w))) = None"
  then have s: "fst (process_country env rs c w) = Inr ()
       \<and> (\<exists>r\<in>set (rows (snd (process_country env rs c w))). cols r = d)"
    unfolding d_def by (intro stored_row) simp_all
  then show "fst (process_country env rs c w) = Inr ()" by blast
  from s obtain r where "r \<in> set (rows (snd (process_country env rs c w)))" "cols r = d"
    by blast
  moreover have "name d = countryName c" by (simp add: d_def name_countryData)
  ultimately show "\<exists>r\<in>set (rows (snd (process_country env rs c w))).
                  name (cols r) = countryName c \<and> population (cols r) = population d"
    by auto
next
  have pd: "population d = population_of c" by (simp add: d_def countryData_def)
  show "population d = Infinity \<or> population d = NegInfinity
            \<or> (\<exists>k::int. population d = Num (of_int k))"
  proof (cases "population_of c")
    case (Num y)
    from population_of_int[OF Num] obtain j :: int where "y = of_int j" by blast
    then show ?thesis using Num pd by simp
  next
    case NaN
    then show ?thesis using population_not_NaN[of c] by simp
  qed (simp_all add: pd)
next
  fix n assume "c_population c = JNum (of_int n) \<and> 0 \<le> n \<and> n < 2147483648"
  then have a: "c_population c = JNum (of_int n)" and b: "0 \<le> n" "n < 9007199254740992"
    by simp_all
  have "parseInt (c_population c) = Num (of_int n)"
    unfolding a by (rule parseInt_small_int[OF b])
  then show "population d = Num (of_int n)"
    by (simp add: d_def countryData_def population_of_def truthy_def)
next
  assume "c_population c = JUndefined \<or> c_population c = JNull \<or> (\<exists>b. c_population c = JBool b)"
  then show "population d = Num 0"
    by (auto simp: d_def countryData_def population_of_def parseInt_def truthy_def)
next
  fix s assume "c_population c = JStr s \<and> \<not> begins_with_digit s"
  then show "population d = Num 0"
    by (simp add: d_def countryData_def population_of_def parseInt_def parseInt_string_no_digit
          truthy_def)
next
  assume neg: "negative (population d)"
  then have "negative (population_of c)" by (simp add: d_def countryData_def)
  then have "negative (parseInt (c_population c))"
    by (simp add: population_of_def Let_def negative_def split: if_splits)
  then show "(\<exists>x. c_population c = JNum x \<and> x < 0) \<or>
            (\<exists>s rest. c_population c = JStr s \<and> trim_start s = CHR ''-'' # rest)"
    by (rule parseInt_negative)
qed

text \<open>
  The theorem at \<open>testland\<close> (population 100, written to the empty table), at a record
  with no population, at the strings \<^verbatim>\<open>n/a\<close> and \<^verbatim>\<open>12\<close> behind a no-break space, and at
  the source value \<open>-5\<close>.
\<close>

theorem stored_population_witness:
  "population (countryData testland Map.empty (1 / 4)) = Num 100
   \<and> (\<exists>r\<in>set (rows (snd (process_country calm Map.empty testland empty_world))).
         name (cols r) = ''Testland'' \<and> population (cols r) = Num 100)
   \<and> population (countryData (testland\<lparr>c_population := JUndefined\<rparr>) Map.empty (1 / 4)) = Num 0
   \<and> population (countryData (testland\<lparr>c_population := JStr ''n/a''\<rparr>) Map.empty (1 / 4)) = Num 0
   \<and> population (countryData (testland\<lparr>c_population := JStr (CHR 0xA0 # ''12'')\<rparr>) Map.empty (1 / 4))
       = Num 12
   \<and> (\<exists>x. c_population (testland\<lparr>c_population := JNum (- 5)\<rparr>) = JNum x \<and> x < 0)"
proof -
  have m: "math_random calm (draws empty_world) = 1 / 4" by (simp add: calm_def)
  have a: "c_population testland = JNum (of_int 100) \<and> (0::int) \<le> 100 \<and> (100::int) < 2147483648"
    by (simp add: testland_def)
  have f: "fault calm (length (trace empty_world)) = None
      \<and> fault calm (Suc (length (trace empty_world))) = None"
    by (simp add: calm_def)
  have nm: "countryName testland = ''Testland''" by code_simp
  have b: "c_population (testland\<lparr>c_population := JUndefined\<rparr>) = JUndefined" by simp
  have c: "c_population (testland\<lparr>c_population := JStr ''n/a''\<rparr>) = JStr ''n/a''
             \<and> \<not> begins_with_digit ''n/a''"
    by code_simp
  have d: "negative (population (countryData (testland\<lparr>c_population := JNum (- 5)\<rparr>) Map.empty (1 / 4)))"
    by code_simp
  have e: "\<not> (\<exists>s rest. c_population (testland\<lparr>c_population := JNum (- 5)\<rparr>) = JStr s
             \<and> trim_start s = CHR ''-'' # rest)"
    by simp
  have g: "population (countryData (testland\<lparr>c_population := JStr (CHR 0xA0 # ''12'')\<rparr>) Map.empty (1 / 4))
       = Num 12"
    by code_simp
  from stored_population[where env = calm and c = testland and rs = Map.empty and w = empty_world] a
  have a1: "population (countryData testland Map.empty (1 / 4)) = Num 100"
    unfolding m by simp
  from stored_population[where env = calm and c = testland and rs = Map.empty and w = empty_world] f
  have "\<exists>r\<in>set (rows (snd (process_country calm Map.empty testland empty_world))).
         name (cols r) = countryName testland
         \<and> population (cols r) = population (countryData testland Map.empty (1 / 4))"
    unfolding m by blast
  then have a2: "\<exists>r\<in>set (rows (snd (process_country calm Map.empty testland empty_world))).
         name (cols r) = ''Testland'' \<and> population (cols r) = Num 100"
    unfolding nm a1 .
  from stored_population[where env = calm and c = "testland\<lparr>c_population := JUndefined\<rparr>" and rs = Map.empty and w = empty_world] b
  have a3: "population (countryData (testland\<lparr>c_population := JUndefined\<rparr>) Map.empty (1 / 4)) = Num 0"
    unfolding m by blast
  from stored_population[where env = calm and c = "testland\<lparr>c_population := JStr ''n/a''\<rparr>" and rs = Map.empty and w = empty_world] c
  have a4: "population (countryData (testland\<lparr>c_population := JStr ''n/a''\<rparr>) Map.empty (1 / 4)) = Num 0"
    unfolding m by blast
  from stored_population[where env = calm and c = "testland\<lparr>c_population := JNum (- 5)\<rparr>" and rs = Map.empty and w = empty_world] d e
  have a5: "\<exists>x. c_population (testland\<lparr>c_population := JNum (- 5)\<rparr>) = JNum x \<and> x < 0"
    unfolding m by blast
  show ?thesis using a1 a2 a3 a4 g a5 by blast
qed

section \<open>Search and deletion by name\<close>

lemma like_percent_all: "like s ''%''"
  by (induction s) simp_all

lemma like_literal_prefix:
  assumes "\<forall>c\<in>set q. \<not> wildcard c"
  shows "like s (q @ ''%'') = prefix q s"
  using assms
proof (induction q arbitrary: s)
  case Nil
  then show ?case using like_percent_all by simp
next
  case (Cons a q)
  then have a: "a \<noteq> CHR ''%''" "a \<noteq> CHR ''_''" "a \<noteq> CHR 0x5C"
    and q: "\<forall>c\<in>set q. \<not> wildcard c"
    by (auto simp: wildcard_def)
  show ?case
  proof (cases s)
    case Nil
    then show ?thesis using a by simp
  next
    case (Cons c s')
    then show ?thesis using a Cons.IH[OF q, of s'] by auto
  qed
qed

lemma like_percent_suffix: "like s (CHR ''%'' # p) = (\<exists>t. suffix t s \<and> like t p)"
proof (induction s)
  case Nil
  then show ?case by simp
next
  case (Cons c s)
  have "like (c # s) (CHR ''%'' # p) = (like (c # s) p \<or> like s (CHR ''%'' # p))" by simp
  also have "\<dots> = (like (c # s) p \<or> (\<exists>t. suffix t s \<and> like t p))" using Cons.IH by simp
  also have "\<dots> = (\<exists>t. suffix t (c # s) \<and> like t p)"
    by (auto simp: suffix_Cons)
  finally show ?case .
qed

lemma like_contains:
  assumes "\<forall>c\<in>set q. \<not> wildcard c"
  shows "like s (''%'' @ q @ ''%'') = sublist q s"
proof -
  have "like s (''%'' @ q @ ''%'') = (\<exists>t. suffix t s \<and> like t (q @ ''%''))"
    using like_percent_suffix[of s "q @ ''%''"] by simp
  also have "\<dots> = (\<exists>t. suffix t s \<and> prefix q t)"
    using like_literal_prefix[OF assms] by simp
  also have "\<dots> = sublist q s" by (simp add: sublist_altdef')
  finally show ?thesis .
qed

lemma wildcard_codes: "wildcard c \<longleftrightarrow> (of_char c :: nat) \<in> {37, 95, 92}"
proof -
  have "(c = CHR ''%'') = ((of_char c :: nat) = of_char CHR ''%'')"
    "(c = CHR ''_'') = ((of_char c :: nat) = of_char CHR ''_'')"
    "(c = CHR 0x5C) = ((of_char c :: nat) = of_char (CHR 0x5C))"
    by (simp_all only: of_char_eq_iff)
  then show ?thesis by (simp add: wildcard_def) 
qed

lemma lower_char_cases:
  "lower_char c = c \<or> ((of_char (lower_char c) :: nat) = of_char c + 32 \<and>
     ((65 \<le> (of_char c :: nat) \<and> (of_char c :: nat) \<le> 90)
      \<or> (192 \<le> (of_char c :: nat) \<and> (of_char c :: nat) \<le> 222)))"
proof (cases "(65 \<le> (of_char c :: nat) \<and> (of_char c :: nat) \<le> 90)
      \<or> (192 \<le> (of_char c :: nat) \<and> (of_char c :: nat) \<le> 222 \<and> (of_char c :: nat) \<noteq> 215)")
  case True
  then have "(of_char (lower_char c) :: nat) = of_char c + 32"
    by (auto simp: lower_char_def Let_def)
  with True show ?thesis by auto
next
  case False
  then have "lower_char c = c" by (auto simp: lower_char_def Let_def)
  then show ?thesis by simp
qed

lemma lower_char_wildcard: "wildcard (lower_char c) = wildcard c"
  using lower_char_cases[of c] by (auto simp: wildcard_codes)

lemma set_trim: "set (trim s) \<subseteq> set s"
  by (auto simp: trim_def dest!: set_dropWhileD)

lemma pattern_literal:
  assumes "\<forall>c\<in>set s. \<not> wildcard c"
  shows "\<forall>c\<in>set (trim (toLowerCase s)). \<not> wildcard c"
proof
  fix c assume "c \<in> set (trim (toLowerCase s))"
  then have "c \<in> set (toLowerCase s)" using set_trim by blast
  then obtain b where "b \<in> set s" "c = lower_char b" by (auto simp: toLowerCase_def)
  with assms show "\<not> wildcard c" by (simp add: lower_char_wildcard)
qed

lemma like_name_pattern:
  assumes "\<forall>c\<in>set s. \<not> wildcard c"
  shows "like n (name_pattern s) = sublist (trim (toLowerCase s)) n"
  unfolding name_pattern_def by (rule like_contains[OF pattern_literal[OF assms]])

lemma trim_Nil_iff: "trim s = [] \<longleftrightarrow> (\<forall>c\<in>set s. js_space c)"
proof
  assume "trim s = []"
  then have a: "\<forall>c\<in>set (dropWhile js_space s). js_space c" by (simp add: trim_def)
  show "\<forall>c\<in>set s. js_space c"
  proof (cases "dropWhile js_space s")
    case Nil then show ?thesis by simp
  next
    case (Cons x xs)
    then have "\<not> js_space x" by (metis hd_dropWhile list.sel(1) list.distinct(1))
    with a Cons show ?thesis by simp
  qed
next
  assume "\<forall>c\<in>set s. js_space c"
  then have d: "dropWhile js_space s = []" by (simp only: dropWhile_eq_Nil_conv)
  show "trim s = []" unfolding trim_def d by simp
qed

lemma valid_name_None_iff:
  "valid_name v = None \<longleftrightarrow> (\<forall>s. v = JStr s \<longrightarrow> (\<forall>c\<in>set s. js_space c))"
  by (cases v) (auto simp: valid_name_def trim_Nil_iff)

lemma valid_name_Some: "valid_name v = Some s \<Longrightarrow> v = JStr s"
  by (cases v) (auto simp: valid_name_def split: if_splits)


lemma lower_char_space: "js_space (lower_char c) = js_space c"
  using lower_char_cases[of c] by (auto simp: js_space_def)

lemma dropWhile_space_lower:
  "dropWhile js_space (map lower_char s) = map lower_char (dropWhile js_space s)"
  by (induction s) (simp_all add: lower_char_space)

lemma trim_toLowerCase: "trim (toLowerCase s) = toLowerCase (trim s)"
  by (simp add: trim_def toLowerCase_def dropWhile_space_lower rev_map)

lemma getMany_ok:
  assumes "fault env (length (trace w)) = None"
  shows "getMany env pat w =
     (Inr (filter (\<lambda>r. like (toLowerCase (name (cols r))) pat) (rows w)),
      w\<lparr>trace := trace w @ [GetMany pat]\<rparr>)"
  using assms by (simp add: getMany_def io_def)

lemma getMany_rows: "rows (snd (getMany env pat w)) = rows w"
  by (simp add: getMany_def io_def split: option.splits)

lemma matches_are_substrings:
  assumes "\<forall>c\<in>set s. \<not> wildcard c"
  shows "filter (\<lambda>r. like (toLowerCase (name (cols r))) (name_pattern s)) xs
           = filter (\<lambda>r. contains_ci (name (cols r)) (trim s)) xs"
  by (simp add: like_name_pattern[OF assms] contains_ci_def trim_toLowerCase)

lemma valid_name_JStr:
  "\<not> (\<forall>c\<in>set s. js_space c) \<Longrightarrow> valid_name (JStr s) = Some s"
  using valid_name_None_iff[of "JStr s"] valid_name_Some[of "JStr s"] by (cases "valid_name (JStr s)") auto

lemma remove_matching:
  assumes "distinct (map row_id xs)"
  shows "filter (\<lambda>r. row_id r \<notin> set (map row_id (filter P xs))) xs = filter (\<lambda>r. \<not> P r) xs"
proof (rule filter_cong[OF refl])
  fix r assume r: "r \<in> set xs"
  have inj: "inj_on row_id (set xs)" using assms by (simp add: distinct_map)
  have "row_id r \<in> row_id ` set (filter P xs) \<longleftrightarrow> P r"
  proof
    assume "row_id r \<in> row_id ` set (filter P xs)"
    then obtain r' where "r' \<in> set xs" "P r'" "row_id r = row_id r'" by auto
    with inj r have "r = r'" by (auto dest: inj_onD)
    with \<open>P r'\<close> show "P r" by simp
  next
    assume "P r" with r show "row_id r \<in> row_id ` set (filter P xs)" by auto
  qed
  then show "(row_id r \<notin> set (map row_id (filter P xs))) = (\<not> P r)" by simp
qed




text \<open>
  C8, as the spec states it, fails, for the same two reasons: the query \<^verbatim>\<open> france\<close>,
  with a space in front, deletes \<^verbatim>\<open>France\<close>, whose name does not contain it, and the
  query \<^verbatim>\<open>%\<close> deletes every row.
\<close>

theorem delete_not_plain_substring:
  "fst (deleteCountriesByName calm (JStr '' france'') europe) = Inr 1
   \<and> names (snd (deleteCountriesByName calm (JStr '' france'') europe)) = [''United Kingdom'']
   \<and> \<not> contains_ci ''France'' '' france''
   \<and> \<not> contains_ci ''United Kingdom'' '' france''
   \<and> fst (deleteCountriesByName calm (JStr ''%'') europe) = Inr 2
   \<and> rows (snd (deleteCountriesByName calm (JStr ''%'') europe)) = []
   \<and> \<not> contains_ci ''France'' ''%''"
  by code_simp

text \<open>
  C8 (amended), for names and texts of characters below \<open>U+0100\<close>: the deletion fails with
  \<^verbatim>\<open>ValidationError\<close>, touching nothing, for every argument that is not a string, is
  empty or is white space only (the no-break space is white space); whenever it fails with
  \<^verbatim>\<open>ValidationError\<close> or \<^verbatim>\<open>NotFoundError\<close> the table is unchanged. For every other text
  free of the characters \<^verbatim>\<open>%\<close>, \<^verbatim>\<open>_\<close> and backslash, when the query does not throw,
  it fails with \<^verbatim>\<open>NotFoundError\<close> when no name contains the trimmed text as a
  case-insensitive substring; otherwise, when the removal does not throw either and the
  keys of the table are distinct, it deletes exactly the rows whose names do, and returns
  their number.
\<close>

theorem delete_by_name:
  "((\<forall>s. v = JStr s \<longrightarrow> (\<forall>c\<in>set s. js_space c)) \<longrightarrow>
       deleteCountriesByName env v w = (Inl ValidationError, w))
   \<and> (fst (deleteCountriesByName env v w) = Inl ValidationError
        \<or> fst (deleteCountriesByName env v w) = Inl NotFoundError \<longrightarrow>
       rows (snd (deleteCountriesByName env v w)) = rows w)
   \<and> (\<forall>s. v = JStr s \<and> \<not> (\<forall>c\<in>set s. js_space c) \<and> (\<forall>c\<in>set s. \<not> wildcard c)
          \<and> fault env (length (trace w)) = None \<longrightarrow>
        (let found = filter (\<lambda>r. contains_ci (name (cols r)) (trim s)) (rows w)
         in (found = [] \<longrightarrow> fst (deleteCountriesByName env v w) = Inl NotFoundError)
          \<and> (found \<noteq> [] \<and> fault env (Suc (length (trace w))) = None
                \<and> distinct (map row_id (rows w)) \<longrightarrow>
              fst (deleteCountriesByName env v w) = Inr (length found)
              \<and> rows (snd (deleteCountriesByName env v w))
                  = filter (\<lambda>r. \<not> contains_ci (name (cols r)) (trim s)) (rows w))))"
proof (intro conjI impI allI)
  assume "\<forall>s. v = JStr s \<longrightarrow> (\<forall>c\<in>set s. js_space c)"
  then have "valid_name v = None" by (simp add: valid_name_None_iff)
  then show "deleteCountriesByName env v w = (Inl ValidationError, w)"
    by (simp add: deleteCountriesByName_def)
next
  assume e: "fst (deleteCountriesByName env v w) = Inl ValidationError
        \<or> fst (deleteCountriesByName env v w) = Inl NotFoundError"
  show "rows (snd (deleteCountriesByName env v w)) = rows w"
  proof (cases "valid_name v")
    case None
    then show ?thesis by (simp add: deleteCountriesByName_def)
  next
    case (Some s)
    obtain r w1 where g: "getMany env (name_pattern s) w = (r, w1)"
      by (cases "getMany env (name_pattern s) w")
    have rw: "rows w1 = rows w" using getMany_rows[of env "name_pattern s" w] g by simp
    show ?thesis
    proof (cases r)
      case (Inl x)
      then show ?thesis using Some g rw by (simp add: deleteCountriesByName_def)
    next
      case (Inr found)
      show ?thesis
      proof (cases "found = []")
        case True
        then show ?thesis using Some g rw Inr by (simp add: deleteCountriesByName_def)
      next
        case False
        then have "(\<exists>m. fst (deleteCountriesByName env v w) = Inl (Error m))
             \<or> (\<exists>n. fst (deleteCountriesByName env v w) = Inr n)"
          using Some g Inr
          by (auto simp: deleteCountriesByName_def remove_def io_def split: option.splits)
        then have False using e by auto
        then show ?thesis ..
      qed
    qed
  qed
next
  fix s
  assume h: "v = JStr s \<and> \<not> (\<forall>c\<in>set s. js_space c) \<and> (\<forall>c\<in>set s. \<not> wildcard c)
          \<and> fault env (length (trace w)) = None"
  then have vn: "valid_name v = Some s" by (simp add: valid_name_JStr)
  from h have lit: "\<forall>c\<in>set s. \<not> wildcard c" and f: "fault env (length (trace w)) = None"
    by simp_all
  let ?P = "\<lambda>r. contains_ci (name (cols r)) (trim s)"
  let ?found = "filter ?P (rows w)"
  let ?w1 = "w\<lparr>trace := trace w @ [GetMany (name_pattern s)]\<rparr>"
  have g: "getMany env (name_pattern s) w = (Inr ?found, ?w1)"
    by (simp add: getMany_ok[OF f] matches_are_substrings[OF lit])
  have none: "fst (deleteCountriesByName env v w) = Inl NotFoundError" if "?found = []"
    using that by (simp add: deleteCountriesByName_def vn g)
  have some: "fst (deleteCountriesByName env v w) = Inr (length ?found)
              \<and> rows (snd (deleteCountriesByName env v w)) = filter (\<lambda>r. \<not> ?P r) (rows w)"
    if t: "?found \<noteq> [] \<and> fault env (Suc (length (trace w))) = None
                \<and> distinct (map row_id (rows w))"
  proof -
    have "fst (deleteCountriesByName env v w) = Inr (length ?found)"
      and "rows (snd (deleteCountriesByName env v w))
             = filter (\<lambda>r. row_id r \<notin> set (map row_id ?found)) (rows w)"
      using t by (simp_all add: deleteCountriesByName_def vn g remove_def io_def)
    then show ?thesis using remove_matching[of "rows w" ?P] t by simp
  qed
  show "let found = filter (\<lambda>r. contains_ci (name (cols r)) (trim s)) (rows w)
         in (found = [] \<longrightarrow> fst (deleteCountriesByName env v w) = Inl NotFoundError)
          \<and> (found \<noteq> [] \<and> fault env (Suc (length (trace w))) = None
                \<and> distinct (map row_id (rows w)) \<longrightarrow>
              fst (deleteCountriesByName env v w) = Inr (length found)
              \<and> rows (snd (deleteCountriesByName env v w))
                  = filter (\<lambda>r. \<not> contains_ci (name (cols r)) (trim s)) (rows w))"
    unfolding Let_def using none some by blast
qed

text \<open>
  The theorem on the table of two rows: \<^verbatim>\<open>king\<close> deletes \<^verbatim>\<open>United Kingdom\<close> and returns
  1; \<^verbatim>\<open>zz-nonexistent\<close> is not found and a blank argument, or a no-break space alone, is
  refused, the table staying as it was. On the table of one row, \<^verbatim>\<open>LAND\<close> behind the
  small a with a ring above, \<open>U+00E5\<close>, deletes the row.
\<close>

theorem delete_by_name_witness:
  "fst (deleteCountriesByName calm (JStr ''king'') europe) = Inr 1
   \<and> rows (snd (deleteCountriesByName calm (JStr ''king'') europe))
       = [\<lparr>row_id = 2, cols = countryData france Map.empty 0\<rparr>]
   \<and> fst (deleteCountriesByName calm (JStr ''zz-nonexistent'') europe) = Inl NotFoundError
   \<and> rows (snd (deleteCountriesByName calm (JStr ''zz-nonexistent'') europe)) = rows europe
   \<and> deleteCountriesByName calm (JStr ''  '') europe = (Inl ValidationError, europe)
   \<and> deleteCountriesByName calm (JStr [CHR 0xA0]) europe = (Inl ValidationError, europe)
   \<and> fst (deleteCountriesByName calm (JStr (CHR 0xE5 # ''LAND'')) baltic) = Inr 1
   \<and> rows (snd (deleteCountriesByName calm (JStr (CHR 0xE5 # ''LAND'')) baltic)) = []"
proof -
  let ?P = "\<lambda>s r. contains_ci (name (cols r)) (trim s)"
  have h7: "\<forall>s. JStr [CHR 0xA0] = JStr s \<longrightarrow> (\<forall>c\<in>set s. js_space c)"
    by (simp add: js_space_def)
  have h8: "JStr (CHR 0xE5 # ''LAND'') = JStr (CHR 0xE5 # ''LAND'')
      \<and> \<not> (\<forall>c\<in>set (CHR 0xE5 # ''LAND''). js_space c)
      \<and> (\<forall>c\<in>set (CHR 0xE5 # ''LAND''). \<not> wildcard c) \<and> fault calm (length (trace baltic)) = None"
    by code_simp
  have g8: "filter (?P (CHR 0xE5 # ''LAND'')) (rows baltic) \<noteq> []
      \<and> fault calm (Suc (length (trace baltic))) = None
      \<and> distinct (map row_id (rows baltic))"
    by code_simp
  have e81: "length (filter (?P (CHR 0xE5 # ''LAND'')) (rows baltic)) = 1" by code_simp
  have e82: "filter (\<lambda>r. \<not> ?P (CHR 0xE5 # ''LAND'') r) (rows baltic) = []" by code_simp
  from delete_by_name[of "JStr (CHR 0xE5 # ''LAND'')" calm baltic] h8 g8
  have "fst (deleteCountriesByName calm (JStr (CHR 0xE5 # ''LAND'')) baltic)
          = Inr (length (filter (?P (CHR 0xE5 # ''LAND'')) (rows baltic)))"
    and "rows (snd (deleteCountriesByName calm (JStr (CHR 0xE5 # ''LAND'')) baltic))
          = filter (\<lambda>r. \<not> ?P (CHR 0xE5 # ''LAND'') r) (rows baltic)"
    unfolding Let_def by blast+
  then have a8: "fst (deleteCountriesByName calm (JStr (CHR 0xE5 # ''LAND'')) baltic) = Inr 1"
    and b8: "rows (snd (deleteCountriesByName calm (JStr (CHR 0xE5 # ''LAND'')) baltic)) = []"
    unfolding e81 e82 by simp_all
  from delete_by_name[of "JStr [CHR 0xA0]" calm europe] h7
  have a7: "deleteCountriesByName calm (JStr [CHR 0xA0]) europe = (Inl ValidationError, europe)"
    by blast
  have h1: "JStr ''king'' = JStr ''king'' \<and> \<not> (\<forall>c\<in>set ''king''. js_space c)
      \<and> (\<forall>c\<in>set ''king''. \<not> wildcard c) \<and> fault calm (length (trace europe)) = None"
    by code_simp
  have g1: "filter (?P ''king'') (rows europe) \<noteq> [] \<and> fault calm (Suc (length (trace europe))) = None
      \<and> distinct (map row_id (rows europe))"
    by code_simp
  have h3: "JStr ''zz-nonexistent'' = JStr ''zz-nonexistent''
      \<and> \<not> (\<forall>c\<in>set ''zz-nonexistent''. js_space c)
      \<and> (\<forall>c\<in>set ''zz-nonexistent''. \<not> wildcard c) \<and> fault calm (length (trace europe)) = None"
    by code_simp
  have g3: "filter (?P ''zz-nonexistent'') (rows europe) = []" by code_simp
  have h4: "\<forall>s. JStr ''  '' = JStr s \<longrightarrow> (\<forall>c\<in>set s. js_space c)"
    by (simp add: js_space_def)
  have e1: "length (filter (?P ''king'') (rows europe)) = 1" by code_simp
  have e2: "filter (\<lambda>r. \<not> ?P ''king'' r) (rows europe)
              = [\<lparr>row_id = 2, cols = countryData france Map.empty 0\<rparr>]"
    by code_simp
  from delete_by_name[of "JStr ''king''" calm europe] h1 g1
  have "fst (deleteCountriesByName calm (JStr ''king'') europe)
          = Inr (length (filter (?P ''king'') (rows europe)))"
    and "rows (snd (deleteCountriesByName calm (JStr ''king'') europe))
          = filter (\<lambda>r. \<not> ?P ''king'' r) (rows europe)"
    unfolding Let_def by blast+
  then have a: "fst (deleteCountriesByName calm (JStr ''king'') europe) = Inr 1"
    and b: "rows (snd (deleteCountriesByName calm (JStr ''king'') europe))
       = [\<lparr>row_id = 2, cols = countryData france Map.empty 0\<rparr>]"
    unfolding e1 e2 by simp_all
  from delete_by_name[of "JStr ''zz-nonexistent''" calm europe] h3 g3
  have c: "fst (deleteCountriesByName calm (JStr ''zz-nonexistent'') europe) = Inl NotFoundError"
    unfolding Let_def by blast
  with delete_by_name[of "JStr ''zz-nonexistent''" calm europe]
  have d: "rows (snd (deleteCountriesByName calm (JStr ''zz-nonexistent'') europe)) = rows europe"
    by blast
  from delete_by_name[of "JStr ''  ''" calm europe] h4
  have e: "deleteCountriesByName calm (JStr ''  '') europe = (Inl ValidationError, europe)"
    by blast
  show ?thesis using a b c d e a7 a8 b8 by blast
qed

end
